theory Spec2Isabelle
  imports Complex_Main "HOL-Library.Sublist" "HOL-Library.AList"
begin

section \<open>Exceptions\<close>

text \<open>
  The Python exceptions the modelled code raises. Each carries the message that
  \<open>str(e)\<close> returns. \<open>AttributeError\<close> is what a method call on \<open>None\<close> raises,
  \<open>NotImplementedError\<close> what \<open>Path.rglob\<close> raises for an absolute pattern;
  \<open>OtherError\<close> stands for any other exception raised by a collaborator outside the
  modelled files (file system, process creation).
\<close>

datatype exn =
    ValueError string
  | RuntimeError string
  | FileNotFoundError string
  | TimeoutError string
  | AttributeError string
  | NotImplementedError string
  | OtherError string

fun str_exn :: "exn \<Rightarrow> string" where
  "str_exn (ValueError m) = m"
| "str_exn (RuntimeError m) = m"
| "str_exn (FileNotFoundError m) = m"
| "str_exn (TimeoutError m) = m"
| "str_exn (AttributeError m) = m"
| "str_exn (NotImplementedError m) = m"
| "str_exn (OtherError m) = m"

section \<open>Port allocation (parallel\_config.py)\<close>

text \<open>
  \<open>ParallelDebugConfig\<close>: the two fields of \<open>resource_config\<close> that port allocation
  reads, the allocation table \<open>allocated_ports\<close> (a dict from worker id to the list of
  its ports) and the cursor \<open>next_port\<close>. Python integers are unbounded, hence \<open>int\<close>.
\<close>

record ParallelDebugConfig =
  base_port :: int
  port_range :: int
  max_workers :: int
  allocated_ports :: "string \<rightharpoonup> int list"
  next_port :: int

text \<open>\<open>__init__\<close> with the defaults of \<open>ResourceConfig\<close>; \<open>max_workers\<close> is auto-detected
  from the CPU count there, so it is a parameter here.\<close>

definition ParallelDebugConfig_init :: "int \<Rightarrow> ParallelDebugConfig" where
  "ParallelDebugConfig_init mw =
     \<lparr>base_port = 3100, port_range = 100, max_workers = mw,
      allocated_ports = Map.empty, next_port = 3100\<rparr>"

text \<open>
  The loop \<open>for _ in range(count)\<close> of \<open>allocate_ports\<close>: \<open>k\<close> iterations remain,
  \<open>limit\<close> is \<open>base_port + port_range\<close>, \<open>np\<close> is \<open>self.next_port\<close> and \<open>ports\<close> the
  local list. The cursor is returned in both outcomes: the increments done before the
  \<open>raise\<close> stay in \<open>self.next_port\<close>.
\<close>

fun take_ports :: "nat \<Rightarrow> int \<Rightarrow> int \<Rightarrow> int list \<Rightarrow> (exn + int list) \<times> int" where
  "take_ports 0 limit np ports = (Inr ports, np)"
| "take_ports (Suc k) limit np ports =
     (if np \<ge> limit then (Inl (RuntimeError ''Port range exhausted''), np)
      else take_ports k limit (np + 1) (ports @ [np]))"

definition allocate_ports ::
  "ParallelDebugConfig \<Rightarrow> string \<Rightarrow> int \<Rightarrow> (exn + int list) \<times> ParallelDebugConfig" where
  "allocate_ports c worker_id count =
     (if worker_id \<in> dom (allocated_ports c)
      then (Inl (ValueError (''Ports already allocated for worker '' @ worker_id)), c)
      else (case take_ports (nat count) (base_port c + port_range c) (next_port c) [] of
              (Inl e, np) \<Rightarrow> (Inl e, c\<lparr>next_port := np\<rparr>)
            | (Inr ports, np) \<Rightarrow>
                (Inr ports,
                 c\<lparr>next_port := np,
                   allocated_ports := (allocated_ports c)(worker_id \<mapsto> ports)\<rparr>)))"

definition release_ports :: "ParallelDebugConfig \<Rightarrow> string \<Rightarrow> ParallelDebugConfig" where
  "release_ports c worker_id =
     (if worker_id \<in> dom (allocated_ports c)
      then c\<lparr>allocated_ports := (allocated_ports c)(worker_id := None)\<rparr>
      else c)"

text \<open>
  A caller's sequence of calls on one configuration object. An exception raised by
  \<open>allocate_ports\<close> reaches the caller, who goes on with the object as the call left it.
\<close>

datatype port_call = Allocate string int | Release string

fun port_step :: "ParallelDebugConfig \<Rightarrow> port_call \<Rightarrow> ParallelDebugConfig" where
  "port_step c (Allocate w n) = snd (allocate_ports c w n)"
| "port_step c (Release w) = release_ports c w"

definition port_calls :: "ParallelDebugConfig \<Rightarrow> port_call list \<Rightarrow> ParallelDebugConfig" where
  "port_calls c calls = foldl port_step c calls"

text \<open>The number of ports left in \<open>[base_port, base_port + port_range)\<close> from the cursor on.\<close>

definition ports_remaining :: "ParallelDebugConfig \<Rightarrow> nat" where
  "ports_remaining c = nat (base_port c + port_range c - next_port c)"

text \<open>No port lies in two held allocations, nor twice in one.\<close>

definition ports_exclusive :: "(string \<rightharpoonup> int list) \<Rightarrow> bool" where
  "ports_exclusive t \<longleftrightarrow>
     (\<forall>w ps. t w = Some ps \<longrightarrow> distinct ps) \<and>
     (\<forall>w1 w2 ps1 ps2. t w1 = Some ps1 \<longrightarrow> t w2 = Some ps2 \<longrightarrow> w1 \<noteq> w2 \<longrightarrow>
         set ps1 \<inter> set ps2 = {})"

text \<open>Every held port lies below the cursor.\<close>

definition below_cursor :: "ParallelDebugConfig \<Rightarrow> bool" where
  "below_cursor c \<longleftrightarrow> (\<forall>w ps. allocated_ports c w = Some ps \<longrightarrow> (\<forall>p \<in> set ps. p < next_port c))"

definition ports_inv :: "ParallelDebugConfig \<Rightarrow> bool" where
  "ports_inv c \<longleftrightarrow> ports_exclusive (allocated_ports c) \<and> below_cursor c"

text \<open>The configuration of the repository's edge-case test: the range cut to two
  ports, both taken by \<open>worker1\<close>.\<close>

definition edge_case_config :: ParallelDebugConfig where
  "edge_case_config =
     port_calls ((ParallelDebugConfig_init 2)\<lparr>port_range := 2\<rparr>) [Allocate ''worker1'' 2]"

section \<open>Decimal formatting\<close>

text \<open>What an f-string gives for an integer: \<open>str(n)\<close>.\<close>

definition digit_char :: "nat \<Rightarrow> char" where
  "digit_char d = char_of (48 + d)"

fun str_nat :: "nat \<Rightarrow> string" where
  "str_nat n = (if n < 10 then [digit_char n] else str_nat (n div 10) @ [digit_char (n mod 10)])"

declare str_nat.simps [simp del]

definition str_int :: "int \<Rightarrow> string" where
  "str_int i = (if i < 0 then CHR ''-'' # str_nat (nat (- i)) else str_nat (nat i))"

section \<open>Scenarios and worker results (parallel\_config.py, debug\_worker.py)\<close>

datatype TestType = UI_FLOW | API_TEST | DATABASE | INTEGRATION | PERFORMANCE | SECURITY

text \<open>\<open>str\<close> of an enum member, as the f-string in \<open>DebugWorker.run\<close> formats it.\<close>

fun str_TestType :: "TestType \<Rightarrow> string" where
  "str_TestType UI_FLOW = ''TestType.UI_FLOW''"
| "str_TestType API_TEST = ''TestType.API_TEST''"
| "str_TestType DATABASE = ''TestType.DATABASE''"
| "str_TestType INTEGRATION = ''TestType.INTEGRATION''"
| "str_TestType PERFORMANCE = ''TestType.PERFORMANCE''"
| "str_TestType SECURITY = ''TestType.SECURITY''"

text \<open>The fields of the \<open>TestScenario\<close> dataclass that the orchestrator and the worker
  read on the modelled paths.\<close>

record TestScenario =
  name :: string
  test_type :: TestType
  test_function :: string
  user_type :: "string option"
  timeout :: int

text \<open>
  A finding as the result dictionaries carry it; every key is read with \<open>.get\<close>, so each
  may be missing (\<open>None\<close>).
\<close>

record finding =
  ftype :: "string option"
  description :: "string option"
  evidence :: "string option"
  fix_suggestion :: "string option"

text \<open>
  \<open>WorkerResult\<close> and the dictionary \<open>to_dict\<close> makes of it, which is what the
  aggregator receives. Durations are Python floats; they are modelled as exact
  rationals. \<open>duration\<close> and \<open>error\<close> are \<open>None\<close> until \<open>complete\<close> sets them.
\<close>

record WorkerResult =
  worker_id :: string
  scenario_name :: string
  success :: bool
  duration :: "rat option"
  error :: "string option"
  logs :: "string list"
  findings :: "finding list"

definition WorkerResult_init :: "string \<Rightarrow> string \<Rightarrow> WorkerResult" where
  "WorkerResult_init wid sname =
     \<lparr>worker_id = wid, scenario_name = sname, success = False, duration = None,
      error = None, logs = [], findings = []\<rparr>"

text \<open>\<open>WorkerResult.complete\<close>; \<open>secs\<close> is the time since \<open>start_time\<close> that the clock reports.\<close>

definition complete_result :: "WorkerResult \<Rightarrow> rat \<Rightarrow> bool \<Rightarrow> string option \<Rightarrow> WorkerResult" where
  "complete_result r secs ok err = r\<lparr>success := ok, error := err, duration := Some secs\<rparr>"

section \<open>The worker (debug\_worker.py)\<close>

text \<open>
  What the worker's surroundings decide. A launched child either cannot be created
  (\<open>Popen\<close> raises, with the given message) or runs for some seconds and then exits with
  a return code and its stdout and stderr, given here as the lists of lines that
  \<open>splitlines\<close> returns.
\<close>

datatype child = PopenRaises string | Child rat int "string list" "string list"

text \<open>
  \<^item> \<open>session_init\<close>: \<open>None\<close> when \<open>_initialize_session\<close> returns, \<open>Some m\<close> when it
    raises an exception with message \<open>m\<close> (the session classes write files);
  \<^item> \<open>find_test_script\<close>: how the call \<open>self._find_test_script(test_function)\<close> ends,
    which the file system under the four fixed roots and \<open>pathlib\<close> decide: it returns
    the path of the first match, or \<open>None\<close> when no root holds a match, or it raises
    (\<open>rglob\<close> in an existing root raises \<open>NotImplementedError\<close> for an absolute name
    and \<open>ValueError\<close> for a name with \<open>**\<close> inside a component);
  \<^item> \<open>sys_executable\<close>: the interpreter path;
  \<^item> \<open>spawn\<close>: what the child process started with a command line does;
  \<^item> \<open>clock\<close>: seconds between \<open>start_time\<close> and the call of \<open>complete\<close>.
\<close>

record worker_world =
  session_init :: "string option"
  find_test_script :: "string \<Rightarrow> exn + string option"
  sys_executable :: string
  spawn :: "string list \<Rightarrow> child"
  clock :: rat

text \<open>
  The worker object: its result, the status events put on the status queue, the results
  put on the result queue, and whether \<open>process.kill()\<close> was called on the child.
  The session state object (checkpoints, findings, test data) belongs to a module
  outside the modelled files; its calls are taken not to raise and are left out.
\<close>

record DebugWorker =
  result :: WorkerResult
  statuses :: "(string \<times> string) list"
  sent :: "WorkerResult list"
  killed :: bool

definition DebugWorker_init :: "string \<Rightarrow> TestScenario \<Rightarrow> DebugWorker" where
  "DebugWorker_init wid sc =
     \<lparr>result = WorkerResult_init wid (name sc), statuses = [], sent = [], killed = False\<rparr>"

definition send_status :: "DebugWorker \<Rightarrow> string \<Rightarrow> string \<Rightarrow> DebugWorker" where
  "send_status w st msg = w\<lparr>statuses := statuses w @ [(st, msg)]\<rparr>"

text \<open>The command line \<open>_execute_test_script\<close> builds from the script's extension;
  \<open>None\<close> is the \<open>else\<close> branch, which raises.\<close>

definition script_cmd :: "worker_world \<Rightarrow> string \<Rightarrow> string list option" where
  "script_cmd wld script_path =
     (if suffix ''.py'' script_path then Some [sys_executable wld, script_path]
      else if suffix ''.js'' script_path then Some [''node'', script_path]
      else None)"

text \<open>
  The \<open>try\<close> block of \<open>_execute_test_script\<close>. \<open>communicate(timeout=...)\<close> raises
  \<open>TimeoutExpired\<close> when the child runs longer than \<open>scenario.timeout\<close> seconds; that
  handler kills the child and raises \<open>TimeoutError\<close>. Every other exception of the block,
  the \<open>RuntimeError\<close> for a non-zero return code included, is caught by
  \<open>except Exception\<close> and wrapped in a new \<open>RuntimeError\<close>. \<open>_parse_test_output\<close> only
  fills metrics, findings and artifacts and swallows its own exceptions.
\<close>

definition run_child ::
  "worker_world \<Rightarrow> TestScenario \<Rightarrow> DebugWorker \<Rightarrow> string list \<Rightarrow> (exn + unit) \<times> DebugWorker" where
  "run_child wld sc w cmd =
     (case spawn wld cmd of
        PopenRaises m \<Rightarrow> (Inl (RuntimeError (''Failed to execute test script: '' @ m)), w)
      | Child secs rc out err \<Rightarrow>
          if secs > of_int (timeout sc)
          then (Inl (TimeoutError (''Test exceeded timeout of '' @ str_int (timeout sc) @ ''s'')),
                w\<lparr>killed := True\<rparr>)
          else
            (let w' = w\<lparr>result := (result w)\<lparr>logs :=
                         logs (result w) @ out @ map (\<lambda>line. ''STDERR: '' @ line) err\<rparr>\<rparr>
             in if rc \<noteq> 0
                then (Inl (RuntimeError (''Failed to execute test script: '' @
                             ''Test script failed with code '' @ str_int rc)), w')
                else (Inr (), w')))"

definition execute_test_script ::
  "worker_world \<Rightarrow> TestScenario \<Rightarrow> DebugWorker \<Rightarrow> string \<Rightarrow> (exn + unit) \<times> DebugWorker" where
  "execute_test_script wld sc w script_path =
     (let w1 = send_status w ''executing'' (''Running '' @ script_path)
      in case script_cmd wld script_path of
           None \<Rightarrow> (Inl (ValueError (''Unsupported script type: '' @ script_path)), w1)
         | Some cmd \<Rightarrow> run_child wld sc w1 cmd)"

text \<open>
  Python's truth value of an \<open>Optional[str]\<close>: \<open>None\<close> and the empty string are false.
  In the four strategies below an exception raised by the search leaves the strategy
  at once, as it does in the source, where nothing around the call catches it.
\<close>

fun truthy :: "string option \<Rightarrow> bool" where
  "truthy None = False"
| "truthy (Some s) = (s \<noteq> [])"

definition run_ui_test ::
  "worker_world \<Rightarrow> TestScenario \<Rightarrow> DebugWorker \<Rightarrow> (exn + unit) \<times> DebugWorker" where
  "run_ui_test wld sc w =
     (let w1 = send_status w ''running'' ''Starting UI test''
      in case (if \<not> (suffix ''.py'' (test_function sc) \<or> suffix ''.js'' (test_function sc))
               then find_test_script wld (test_function sc)
               else Inr (Some (test_function sc))) of
           Inl e \<Rightarrow> (Inl e, w1)
         | Inr test_script \<Rightarrow>
             if \<not> truthy test_script
             then (Inl (FileNotFoundError (''Test script not found: '' @ test_function sc)), w1)
             else execute_test_script wld sc w1 (the test_script))"

definition run_api_test ::
  "worker_world \<Rightarrow> TestScenario \<Rightarrow> DebugWorker \<Rightarrow> (exn + unit) \<times> DebugWorker" where
  "run_api_test wld sc w =
     (let w1 = send_status w ''running'' ''Starting API tests''
      in case find_test_script wld (test_function sc) of
           Inl e \<Rightarrow> (Inl e, w1)
         | Inr test_script \<Rightarrow>
             if truthy test_script then execute_test_script wld sc w1 (the test_script)
             else (Inr (), w1))"

definition run_database_test ::
  "worker_world \<Rightarrow> TestScenario \<Rightarrow> DebugWorker \<Rightarrow> (exn + unit) \<times> DebugWorker" where
  "run_database_test wld sc w = (Inr (), send_status w ''running'' ''Starting database tests'')"

definition run_integration_test ::
  "worker_world \<Rightarrow> TestScenario \<Rightarrow> DebugWorker \<Rightarrow> (exn + unit) \<times> DebugWorker" where
  "run_integration_test wld sc w =
     (let w1 = send_status w ''running'' ''Starting integration tests''
      in case find_test_script wld (test_function sc) of
           Inl e \<Rightarrow> (Inl e, w1)
         | Inr test_script \<Rightarrow>
             if truthy test_script then execute_test_script wld sc w1 (the test_script)
             else (Inr (), w1))"

definition run_performance_test ::
  "worker_world \<Rightarrow> TestScenario \<Rightarrow> DebugWorker \<Rightarrow> (exn + unit) \<times> DebugWorker" where
  "run_performance_test wld sc w =
     (let w1 = send_status w ''running'' ''Starting performance tests''
      in case find_test_script wld (test_function sc) of
           Inl e \<Rightarrow> (Inl e, w1)
         | Inr test_script \<Rightarrow>
             if truthy test_script then execute_test_script wld sc w1 (the test_script)
             else (Inr (), w1))"

text \<open>The \<open>try\<close> body of \<open>run\<close> up to the dispatch: the \<open>if\<close>/\<open>elif\<close> chain on the test
  type, whose \<open>else\<close> raises.\<close>

definition run_dispatch ::
  "worker_world \<Rightarrow> TestScenario \<Rightarrow> DebugWorker \<Rightarrow> (exn + unit) \<times> DebugWorker" where
  "run_dispatch wld sc w =
     (case session_init wld of
        Some m \<Rightarrow> (Inl (OtherError m), w)
      | None \<Rightarrow>
          (let w0 = send_status w ''starting'' (''Initializing '' @ name sc)
           in if test_type sc = UI_FLOW then run_ui_test wld sc w0
              else if test_type sc = API_TEST then run_api_test wld sc w0
              else if test_type sc = DATABASE then run_database_test wld sc w0
              else if test_type sc = INTEGRATION then run_integration_test wld sc w0
              else if test_type sc = PERFORMANCE then run_performance_test wld sc w0
              else (Inl (ValueError (''Unknown test type: '' @ str_TestType (test_type sc))), w0)))"

text \<open>
  \<open>run\<close>: the body, then \<open>complete(success=True)\<close> or, in the \<open>except\<close> handler,
  \<open>complete(success=False, error=str(e))\<close>; the \<open>finally\<close> block cleans up and puts
  the result on the result queue.
\<close>

definition run :: "worker_world \<Rightarrow> TestScenario \<Rightarrow> DebugWorker \<Rightarrow> DebugWorker" where
  "run wld sc w =
     (let (r, w1) = run_dispatch wld sc w;
          w2 = (case r of
                  Inr u \<Rightarrow>
                    send_status (w1\<lparr>result := complete_result (result w1) (clock wld) True None\<rparr>)
                      ''completed'' (''Successfully completed '' @ name sc)
                | Inl e \<Rightarrow>
                    send_status
                      (w1\<lparr>result := complete_result (result w1) (clock wld) False (Some (str_exn e))\<rparr>)
                      ''failed'' (''Failed: '' @ str_exn e));
          w3 = send_status w2 ''cleanup'' ''Cleaning up resources''
      in w3\<lparr>sent := sent w3 @ [result w3]\<rparr>)"

text \<open>\<open>run_worker\<close>, the entry point of the worker process: the final result record.\<close>

definition run_worker :: "worker_world \<Rightarrow> string \<Rightarrow> TestScenario \<Rightarrow> WorkerResult" where
  "run_worker wld wid sc = result (run wld sc (DebugWorker_init wid sc))"

text \<open>
  The script a strategy hands to \<open>_execute_test_script\<close>: for a UI flow the test function
  itself when it ends in \<open>.py\<close> or \<open>.js\<close>, otherwise (and for the other script-launching
  types always) the outcome of the search, which may be an exception.
\<close>

definition direct_match :: "TestScenario \<Rightarrow> bool" where
  "direct_match sc \<longleftrightarrow>
     test_type sc = UI_FLOW \<and>
     (suffix ''.py'' (test_function sc) \<or> suffix ''.js'' (test_function sc))"

definition resolved_script :: "worker_world \<Rightarrow> TestScenario \<Rightarrow> exn + string option" where
  "resolved_script wld sc =
     (if direct_match sc then Inr (Some (test_function sc))
      else find_test_script wld (test_function sc))"

definition launches_script :: "TestType \<Rightarrow> bool" where
  "launches_script t \<longleftrightarrow> t = UI_FLOW \<or> t = API_TEST \<or> t = INTEGRATION \<or> t = PERFORMANCE"

section \<open>The orchestrator's scheduling loop (parallel\_debugger.py)\<close>

text \<open>
  The orchestrator: its configuration, the dicts \<open>workers\<close> (worker id to process; a
  process is named by the number of its launch) and \<open>worker_scenarios\<close>, in insertion
  order, and a trace \<open>launched\<close> of every \<open>process.start()\<close> that succeeded, as the pair
  of the worker id and the scenario name.
\<close>

record ParallelDebugger =
  config :: ParallelDebugConfig
  workers :: "(string \<times> nat) list"
  worker_scenarios :: "(string \<times> TestScenario) list"
  launched :: "(string \<times> string) list"

definition ParallelDebugger_init :: "ParallelDebugConfig \<Rightarrow> ParallelDebugger" where
  "ParallelDebugger_init c = \<lparr>config = c, workers = [], worker_scenarios = [], launched = []\<rparr>"

text \<open>
  What the operating system decides: whether creating or starting the process for a
  scenario raises, and whether a process is alive at a given round of the loop.
\<close>

record orch_world =
  start_raises :: "string \<Rightarrow> bool"
  is_alive :: "nat \<Rightarrow> nat \<Rightarrow> bool"

text \<open>\<open>_start_worker\<close>. The identifier is built from \<open>len(self.workers)\<close>, the number of
  entries the dict has now. Any exception in the \<open>try\<close> releases the ports registered
  under that identifier and returns \<open>None\<close>.\<close>

definition start_worker ::
  "orch_world \<Rightarrow> ParallelDebugger \<Rightarrow> TestScenario \<Rightarrow> string option \<times> ParallelDebugger" where
  "start_worker ow d sc =
     (let wid = ''worker_'' @ str_nat (length (workers d))
      in case allocate_ports (config d) wid 2 of
           (Inl e, c) \<Rightarrow> (None, d\<lparr>config := release_ports c wid\<rparr>)
         | (Inr ports, c) \<Rightarrow>
             if start_raises ow (name sc)
             then (None, d\<lparr>config := release_ports c wid\<rparr>)
             else (Some wid,
                   d\<lparr>config := c,
                     workers := AList.update wid (length (launched d)) (workers d),
                     worker_scenarios := AList.update wid sc (worker_scenarios d),
                     launched := launched d @ [(wid, name sc)]\<rparr>))"

text \<open>The inner \<open>while\<close>: start workers while scenarios wait and fewer than
  \<open>max_workers\<close> are active.\<close>

fun start_new ::
  "orch_world \<Rightarrow> TestScenario list \<Rightarrow> (string \<times> TestScenario) list \<Rightarrow> ParallelDebugger \<Rightarrow>
     TestScenario list \<times> (string \<times> TestScenario) list \<times> ParallelDebugger" where
  "start_new ow [] active d = ([], active, d)"
| "start_new ow (sc # queue) active d =
     (if int (length active) < max_workers (config d)
      then (case start_worker ow d sc of
              (Some wid, d') \<Rightarrow> start_new ow queue (AList.update wid sc active) d'
            | (None, d') \<Rightarrow> start_new ow queue active d')
      else (sc # queue, active, d))"

text \<open>The workers found exited in this round, and their clean-up.\<close>

definition completed_workers ::
  "orch_world \<Rightarrow> nat \<Rightarrow> (string \<times> TestScenario) list \<Rightarrow> ParallelDebugger \<Rightarrow> string list" where
  "completed_workers ow rnd active d =
     map fst (filter (\<lambda>(wid, process). wid \<in> fst ` set active \<and> \<not> is_alive ow rnd process)
                (workers d))"

fun clean_up ::
  "string list \<Rightarrow> (string \<times> TestScenario) list \<Rightarrow> ParallelDebugger \<Rightarrow>
     (string \<times> TestScenario) list \<times> ParallelDebugger" where
  "clean_up [] active d = (active, d)"
| "clean_up (wid # wids) active d =
     clean_up wids (AList.delete wid active)
       (d\<lparr>workers := AList.delete wid (workers d),
          config := release_ports (config d) wid\<rparr>)"

text \<open>
  \<open>_execute_scenarios\<close>. The outer \<open>while\<close> runs as long as a worker stays alive, so the
  model counts rounds down from \<open>fuel\<close>; \<open>None\<close> means the loop has not ended within
  that many rounds.
\<close>

fun execute_rounds ::
  "nat \<Rightarrow> orch_world \<Rightarrow> nat \<Rightarrow> TestScenario list \<Rightarrow> (string \<times> TestScenario) list \<Rightarrow>
     ParallelDebugger \<Rightarrow> ParallelDebugger option" where
  "execute_rounds 0 ow rnd queue active d = None"
| "execute_rounds (Suc fuel) ow rnd queue active d =
     (if queue = [] \<and> active = [] then Some d
      else (case start_new ow queue active d of
              (queue', active', d') \<Rightarrow>
                (case clean_up (completed_workers ow rnd active' d') active' d' of
                   (active'', d'') \<Rightarrow> execute_rounds fuel ow (Suc rnd) queue' active'' d'')))"

definition execute_scenarios ::
  "nat \<Rightarrow> orch_world \<Rightarrow> ParallelDebugger \<Rightarrow> TestScenario list \<Rightarrow> ParallelDebugger option" where
  "execute_scenarios fuel ow d scenarios = execute_rounds fuel ow 0 scenarios [] d"

text \<open>
  The naming the specification states for the identifiers: the k-th worker started in
  a run (counting from 0) is called \<open>worker_k\<close>.
\<close>

definition fresh_ids :: "(string \<times> string) list \<Rightarrow> bool" where
  "fresh_ids tr \<longleftrightarrow> map fst tr = map (\<lambda>k. ''worker_'' @ str_nat k) [0 ..< length tr]"

text \<open>The run that shows the identifier clash: four scenarios, two workers at most; the
  first process has exited at the first poll, the others are alive for two rounds.\<close>

definition scn :: "string \<Rightarrow> TestType \<Rightarrow> TestScenario" where
  "scn n t = \<lparr>name = n, test_type = t, test_function = n, user_type = None, timeout = 120\<rparr>"

definition clash_world :: orch_world where
  "clash_world = \<lparr>start_raises = (\<lambda>n. False), is_alive = (\<lambda>rnd p. p \<noteq> 0 \<and> rnd < 2)\<rparr>"

definition clash_scenarios :: "TestScenario list" where
  "clash_scenarios = [scn ''A'' DATABASE, scn ''B'' DATABASE, scn ''C'' DATABASE, scn ''D'' DATABASE]"

text \<open>Surroundings in which the session starts, the file search finds nothing, and any
  child would exit with code 0 after one second.\<close>

definition no_script_world :: worker_world where
  "no_script_world =
     \<lparr>session_init = None, find_test_script = (\<lambda>f. Inr None), sys_executable = ''python3'',
      spawn = (\<lambda>cmd. Child 1 0 [] []), clock = 1\<rparr>"

text \<open>The same, except that the search raises what \<open>rglob\<close> raises for an absolute
  name, and the same, except that the session cannot be started.\<close>

definition raising_search_world :: worker_world where
  "raising_search_world =
     no_script_world\<lparr>find_test_script :=
       (\<lambda>f. Inl (NotImplementedError ''Non-relative patterns are unsupported''))\<rparr>"

definition no_session_world :: worker_world where
  "no_session_world =
     no_script_world\<lparr>session_init := Some ''[Errno 2] No such file or directory''\<rparr>"

text \<open>Surroundings in which every name resolves to a script in \<open>test_scripts\<close> and the
  child runs for the given seconds and exits with the given code.\<close>

definition script_world :: "rat \<Rightarrow> int \<Rightarrow> worker_world" where
  "script_world secs rc =
     \<lparr>session_init = None,
      find_test_script = (\<lambda>f. Inr (Some (''test_scripts/'' @ f @ ''.py''))),
      sys_executable = ''python3'', spawn = (\<lambda>cmd. Child secs rc [] []), clock = secs\<rparr>"

section \<open>Python string operations\<close>

text \<open>
  Strings are modelled as lists of characters with code points below 256. On these,
  \<open>str.lower\<close> maps \<open>A\<close>--\<open>Z\<close> and the Latin-1 capitals (192--222 except the
  multiplication sign 215) to the letter 32 places up and leaves the rest; the
  whitespace that \<open>strip\<close> and \<open>split\<close> recognise is 9--13, 28--32, 133 and 160.
\<close>

definition lower_char :: "char \<Rightarrow> char" where
  "lower_char c =
     (let n = (of_char c :: nat)
      in if (65 \<le> n \<and> n \<le> 90) \<or> (192 \<le> n \<and> n \<le> 222 \<and> n \<noteq> 215)
         then char_of (n + 32) else c)"

definition lower :: "string \<Rightarrow> string" where
  "lower s = map lower_char s"

definition isspace :: "char \<Rightarrow> bool" where
  "isspace c =
     (let n = (of_char c :: nat)
      in (9 \<le> n \<and> n \<le> 13) \<or> (28 \<le> n \<and> n \<le> 32) \<or> n = 133 \<or> n = 160)"

definition strip :: "string \<Rightarrow> string" where
  "strip s = rev (dropWhile isspace (rev (dropWhile isspace s)))"

text \<open>\<open>s.split()\<close>: the maximal runs of non-whitespace; \<open>w\<close> is the word being read.\<close>

fun split_from :: "string \<Rightarrow> string \<Rightarrow> string list" where
  "split_from w [] = (if w = [] then [] else [w])"
| "split_from w (c # cs) =
     (if isspace c then (if w = [] then split_from [] cs else w # split_from [] cs)
      else split_from (w @ [c]) cs)"

definition split :: "string \<Rightarrow> string list" where
  "split s = split_from [] s"

text \<open>\<open>x in s\<close> on strings: \<open>x\<close> occurs in \<open>s\<close> as a contiguous piece.\<close>

fun py_in :: "string \<Rightarrow> string \<Rightarrow> bool" where
  "py_in x [] = (x = [])"
| "py_in x (c # cs) = (prefix x (c # cs) \<or> py_in x cs)"

section \<open>Regular expressions of the error analyzer\<close>

text \<open>
  The constructs the seven category patterns use: a literal character (compared
  without regard to case, as \<open>re.I\<close> asks), a digit \<open>\d\<close>, the lazy \<open>.*?\<close> (any run of
  characters other than newline), sequence and alternation. \<open>matches_here\<close> is the
  backtracking matcher: it takes the list of expressions still to be matched, in
  order, and tells whether some prefix of the text matches them; \<open>search\<close> tries every
  start position, as \<open>pattern.search\<close> does.
\<close>

datatype regex =
    Eps
  | Lit char
  | Digit
  | AnyLazy
  | Seq regex regex
  | Alt regex regex

definition isdigit :: "char \<Rightarrow> bool" where
  "isdigit c = (let n = (of_char c :: nat) in 48 \<le> n \<and> n \<le> 57)"

function matches_here :: "regex list \<Rightarrow> string \<Rightarrow> bool" where
  "matches_here [] s = True"
| "matches_here (Eps # k) s = matches_here k s"
| "matches_here (Lit p # k) [] = False"
| "matches_here (Lit p # k) (c # cs) = (lower_char c = lower_char p \<and> matches_here k cs)"
| "matches_here (Digit # k) [] = False"
| "matches_here (Digit # k) (c # cs) = (isdigit c \<and> matches_here k cs)"
| "matches_here (AnyLazy # k) [] = matches_here k []"
| "matches_here (AnyLazy # k) (c # cs) =
     (matches_here k (c # cs) \<or> (c \<noteq> CHR 0x0A \<and> matches_here (AnyLazy # k) cs))"
| "matches_here (Seq a b # k) s = matches_here (a # b # k) s"
| "matches_here (Alt a b # k) s = (matches_here (a # k) s \<or> matches_here (b # k) s)"
  by pat_completeness auto
termination
  by (relation "measure (\<lambda>(k, s). size_list (\<lambda>r. 3 * size r) k + length s)") auto

fun search :: "regex \<Rightarrow> string \<Rightarrow> bool" where
  "search r [] = matches_here [r] []"
| "search r (c # cs) = (matches_here [r] (c # cs) \<or> search r cs)"

text \<open>A literal word, and the pieces the patterns are built from.\<close>

fun lit :: "string \<Rightarrow> regex" where
  "lit [] = Eps"
| "lit (c # cs) = Seq (Lit c) (lit cs)"

definition then_lazily :: "regex \<Rightarrow> regex \<Rightarrow> regex" where
  "then_lazily a b = Seq a (Seq AnyLazy b)"

text \<open>
  \<open>ErrorPatternAnalyzer.__init__\<close>: the dict \<open>self.error_patterns\<close>, in its order.
  \<^verbatim>\<open>
  null_reference  (null|undefined|None).*?(reference|property|attribute)
  timeout         (timeout|timed out|exceeded.*?timeout)
  connection      (connection.*?(refused|failed|error)|ECONNREFUSED)
  authentication  (401|403|unauthorized|forbidden|auth.*?fail)
  validation      (validation.*?(error|fail)|invalid.*?data)
  database        (database|sql|query).*?(error|fail|exception)
  api_error       (4\d{2}|5\d{2}).*?(error|fail)|api.*?error
  \<close>
\<close>

definition error_patterns_table :: "(string \<times> regex) list" where
  "error_patterns_table =
     [(''null_reference'',
         then_lazily (Alt (lit ''null'') (Alt (lit ''undefined'') (lit ''None'')))
           (Alt (lit ''reference'') (Alt (lit ''property'') (lit ''attribute'')))),
      (''timeout'',
         Alt (lit ''timeout'') (Alt (lit ''timed out'')
           (then_lazily (lit ''exceeded'') (lit ''timeout'')))),
      (''connection'',
         Alt (then_lazily (lit ''connection'')
                (Alt (lit ''refused'') (Alt (lit ''failed'') (lit ''error''))))
             (lit ''ECONNREFUSED'')),
      (''authentication'',
         Alt (lit ''401'') (Alt (lit ''403'') (Alt (lit ''unauthorized'')
           (Alt (lit ''forbidden'') (then_lazily (lit ''auth'') (lit ''fail'')))))),
      (''validation'',
         Alt (then_lazily (lit ''validation'') (Alt (lit ''error'') (lit ''fail'')))
             (then_lazily (lit ''invalid'') (lit ''data''))),
      (''database'',
         then_lazily (Alt (lit ''database'') (Alt (lit ''sql'') (lit ''query'')))
           (Alt (lit ''error'') (Alt (lit ''fail'') (lit ''exception'')))),
      (''api_error'',
         Alt (then_lazily (Alt (Seq (Lit CHR ''4'') (Seq Digit Digit))
                               (Seq (Lit CHR ''5'') (Seq Digit Digit)))
                (Alt (lit ''error'') (lit ''fail'')))
             (then_lazily (lit ''api'') (lit ''error'')))]"

section \<open>Error pattern analysis (analyzers/error\_pattern\_analyzer.py)\<close>

text \<open>An entry of a category: \<open>{'scenario': ..., 'error': ...}\<close> or
  \<open>{'scenario': ..., 'log': ...}\<close>.\<close>

datatype occurrence = ErrorOcc string string | LogOcc string string

text \<open>\<open>error_categories[category].append(entry)\<close> on a \<open>defaultdict(list)\<close>, kept in
  insertion order.\<close>

definition add_occurrence ::
  "string \<Rightarrow> occurrence \<Rightarrow> (string \<times> occurrence list) list \<Rightarrow> (string \<times> occurrence list) list" where
  "add_occurrence cat occ cats =
     (case map_of cats cat of
        None \<Rightarrow> cats @ [(cat, [occ])]
      | Some occs \<Rightarrow> AList.update cat (occs @ [occ]) cats)"

text \<open>The loop over \<open>self.error_patterns.items()\<close> for one text.\<close>

fun categorize ::
  "(string \<times> regex) list \<Rightarrow> string \<Rightarrow> occurrence \<Rightarrow> (string \<times> occurrence list) list \<Rightarrow>
     (string \<times> occurrence list) list" where
  "categorize [] text occ cats = cats"
| "categorize ((category, pattern) # ps) text occ cats =
     categorize ps text occ
       (if search pattern text then add_occurrence category occ cats else cats)"

fun categorize_logs ::
  "string \<Rightarrow> string list \<Rightarrow> (string \<times> occurrence list) list \<Rightarrow> (string \<times> occurrence list) list" where
  "categorize_logs sn [] cats = cats"
| "categorize_logs sn (log_line # ls) cats =
     categorize_logs sn ls
       (if py_in ''error'' (lower log_line) \<or> py_in ''fail'' (lower log_line)
        then categorize error_patterns_table log_line (LogOcc sn log_line) cats
        else cats)"

fun collect_errors ::
  "WorkerResult list \<Rightarrow> string list \<times> (string \<times> occurrence list) list \<Rightarrow>
     string list \<times> (string \<times> occurrence list) list" where
  "collect_errors [] acc = acc"
| "collect_errors (r # rs) (error_messages, cats) =
     collect_errors rs
       (if \<not> success r \<and> truthy (error r)
        then (error_messages @ [the (error r)],
              categorize_logs (scenario_name r) (logs r)
                (categorize error_patterns_table (the (error r))
                   (ErrorOcc (scenario_name r) (the (error r))) cats))
        else (error_messages, cats))"

text \<open>\<open>Counter(error_messages).most_common(5)\<close>: counts in order of first occurrence,
  sorted by falling count, ties in that order, the first five.\<close>

fun counter :: "string list \<Rightarrow> (string \<times> nat) list \<Rightarrow> (string \<times> nat) list" where
  "counter [] cnt = cnt"
| "counter (m # ms) cnt =
     counter ms (case map_of cnt m of None \<Rightarrow> cnt @ [(m, 1)]
                 | Some n \<Rightarrow> AList.update m (n + 1) cnt)"

definition most_common :: "nat \<Rightarrow> (string \<times> nat) list \<Rightarrow> (string \<times> nat) list" where
  "most_common n cnt = take n (sort_key (\<lambda>(m, k). - int k) cnt)"

definition analyze_errors ::
  "WorkerResult list \<Rightarrow> (string \<times> nat) list \<times> (string \<times> occurrence list) list" where
  "analyze_errors worker_results =
     (case collect_errors worker_results ([], []) of
        (error_messages, cats) \<Rightarrow>
          (if error_messages \<noteq> [] then most_common 5 (counter error_messages []) else [],
           cats))"

text \<open>The entries of a category in the resulting dict; none when the key is absent.\<close>

definition occurrences :: "string \<Rightarrow> (string \<times> occurrence list) list \<Rightarrow> occurrence list" where
  "occurrences cat cats = (case map_of cats cat of None \<Rightarrow> [] | Some occs \<Rightarrow> occs)"

section \<open>Findings analysis (analyzers/findings\_analyzer.py)\<close>

text \<open>
  \<open>_are_similar\<close>. The quotient \<open>overlap / min(len(words1), len(words2))\<close> is a Python
  float compared with the float \<open>0.7\<close>; it is modelled as the exact rational compared
  with 7/10, which gives the same answer as long as the texts have fewer than
  \<open>10^15\<close> distinct words.
\<close>

definition are_similar :: "string \<Rightarrow> string \<Rightarrow> bool" where
  "are_similar text1 text2 =
     (let t1 = strip (lower text1);
          t2 = strip (lower text2)
      in if t1 = t2 then True
         else if py_in t1 t2 \<or> py_in t2 t1 then True
         else (let words1 = set (split t1);
                   words2 = set (split t2)
               in if words1 = {} \<or> words2 = {} then False
                  else (let overlap = card (words1 \<inter> words2);
                            similarity =
                              (of_nat overlap / of_nat (min (card words1) (card words2)) :: rat)
                        in similarity > 7 / 10)))"

text \<open>
  The similarity rule as the specification words it: exact match, substring
  containment, or a token-overlap ratio \<open>|intersection| / min(|words1|, |words2|)\<close> of at
  least 70 percent, after lowercasing and trimming.
\<close>

definition spec_similar :: "string \<Rightarrow> string \<Rightarrow> bool" where
  "spec_similar text1 text2 =
     (let t1 = strip (lower text1);
          t2 = strip (lower text2);
          words1 = set (split t1);
          words2 = set (split t2)
      in t1 = t2 \<or> py_in t1 t2 \<or> py_in t2 t1 \<or>
         (words1 \<noteq> {} \<and> words2 \<noteq> {} \<and>
          (of_nat (card (words1 \<inter> words2)) / of_nat (min (card words1) (card words2)) :: rat)
             \<ge> 7 / 10))"

text \<open>The rule the code implements: the same with a ratio above 70 percent.\<close>

definition strictly_similar :: "string \<Rightarrow> string \<Rightarrow> bool" where
  "strictly_similar text1 text2 =
     (let t1 = strip (lower text1);
          t2 = strip (lower text2);
          words1 = set (split t1);
          words2 = set (split t2)
      in t1 = t2 \<or> py_in t1 t2 \<or> py_in t2 t1 \<or>
         (words1 \<noteq> {} \<and> words2 \<noteq> {} \<and>
          (of_nat (card (words1 \<inter> words2)) / of_nat (min (card words1) (card words2)) :: rat)
             > 7 / 10))"

text \<open>
  The call \<open>self._are_similar(desc, other_desc)\<close> from the grouping loop. The entries
  always have the key \<open>description\<close>, with the value \<open>None\<close> when the finding had none,
  and \<open>None.lower()\<close> raises.
\<close>

definition none_has_no_lower :: string where
  "none_has_no_lower =
     [CHR 0x27] @ ''NoneType'' @ [CHR 0x27] @ '' object has no attribute '' @
     [CHR 0x27] @ ''lower'' @ [CHR 0x27]"

definition are_similar_call :: "string option \<Rightarrow> string option \<Rightarrow> exn + bool" where
  "are_similar_call desc other_desc =
     (case (desc, other_desc) of
        (Some text1, Some text2) \<Rightarrow> Inr (are_similar text1 text2)
      | _ \<Rightarrow> Inl (AttributeError none_has_no_lower))"

text \<open>An entry of \<open>findings_by_type\<close> and a cluster of \<open>_group_similar_findings\<close>.\<close>

record finding_entry =
  fe_scenario :: string
  fe_description :: "string option"
  fe_evidence :: "string option"
  fe_fix_suggestion :: "string option"

record cluster =
  cl_description :: "string option"
  cl_count :: nat
  cl_scenarios :: "string list"
  cl_evidence :: "string list"

definition make_cluster :: "string option \<Rightarrow> finding_entry list \<Rightarrow> cluster" where
  "make_cluster desc similar =
     \<lparr>cl_description = desc, cl_count = length similar,
      cl_scenarios = map fe_scenario similar,
      cl_evidence = map the (filter truthy (map fe_evidence similar))\<rparr>"

text \<open>The inner loop over \<open>enumerate(findings[i+1:], i+1)\<close>.\<close>

fun scan_others ::
  "string option \<Rightarrow> (nat \<times> finding_entry) list \<Rightarrow> nat set \<Rightarrow> finding_entry list \<Rightarrow>
     exn + (finding_entry list \<times> nat set)" where
  "scan_others desc [] seen similar = Inr (similar, seen)"
| "scan_others desc ((j, other) # rest) seen similar =
     (if j \<in> seen then scan_others desc rest seen similar
      else (case are_similar_call desc (fe_description other) of
              Inl e \<Rightarrow> Inl e
            | Inr sim \<Rightarrow>
                if sim then scan_others desc rest (insert j seen) (similar @ [other])
                else scan_others desc rest seen similar))"

text \<open>The outer loop over \<open>enumerate(findings)\<close>.\<close>

fun group_loop ::
  "(nat \<times> finding_entry) list \<Rightarrow> nat set \<Rightarrow> cluster list \<Rightarrow> exn + cluster list" where
  "group_loop [] seen grouped = Inr grouped"
| "group_loop ((i, finding) # rest) seen grouped =
     (if i \<in> seen then group_loop rest seen grouped
      else (case scan_others (fe_description finding) rest seen [finding] of
              Inl e \<Rightarrow> Inl e
            | Inr (similar, seen') \<Rightarrow>
                group_loop rest seen'
                  (if length similar > 1
                   then grouped @ [make_cluster (fe_description finding) similar]
                   else grouped)))"

definition group_similar_findings :: "finding_entry list \<Rightarrow> exn + cluster list" where
  "group_similar_findings fs = group_loop (zip [0 ..< length fs] fs) {} []"

text \<open>\<open>analyze_findings\<close>: the findings by type, in insertion order, and the root causes.\<close>

definition add_finding ::
  "string \<Rightarrow> finding_entry \<Rightarrow> (string \<times> finding_entry list) list \<Rightarrow>
     (string \<times> finding_entry list) list" where
  "add_finding t e by_type =
     (case map_of by_type t of
        None \<Rightarrow> by_type @ [(t, [e])]
      | Some es \<Rightarrow> AList.update t (es @ [e]) by_type)"

fun collect_findings ::
  "string \<Rightarrow> finding list \<Rightarrow> (string \<times> finding_entry list) list \<times> finding list \<Rightarrow>
     (string \<times> finding_entry list) list \<times> finding list" where
  "collect_findings sn [] acc = acc"
| "collect_findings sn (f # fs) (by_type, roots) =
     (let finding_type = (case ftype f of None \<Rightarrow> ''observation'' | Some t \<Rightarrow> t);
          entry = \<lparr>fe_scenario = sn, fe_description = description f,
                   fe_evidence = evidence f, fe_fix_suggestion = fix_suggestion f\<rparr>
      in collect_findings sn fs
           (add_finding finding_type entry by_type,
            if finding_type = ''root_cause'' then roots @ [f] else roots))"

fun collect_all_findings ::
  "WorkerResult list \<Rightarrow> (string \<times> finding_entry list) list \<times> finding list \<Rightarrow>
     (string \<times> finding_entry list) list \<times> finding list" where
  "collect_all_findings [] acc = acc"
| "collect_all_findings (r # rs) acc =
     collect_all_findings rs (collect_findings (scenario_name r) (findings r) acc)"

fun common_of ::
  "(string \<times> finding_entry list) list \<Rightarrow> (string \<times> cluster list) list \<Rightarrow>
     exn + (string \<times> cluster list) list" where
  "common_of [] common = Inr common"
| "common_of ((finding_type, fs) # rest) common =
     (if length fs > 1
      then (case group_similar_findings fs of
              Inl e \<Rightarrow> Inl e
            | Inr grouped \<Rightarrow>
                common_of rest
                  (if grouped \<noteq> [] then AList.update finding_type grouped common else common))
      else common_of rest common)"

definition analyze_findings ::
  "WorkerResult list \<Rightarrow> exn + ((string \<times> cluster list) list \<times> finding list)" where
  "analyze_findings worker_results =
     (case collect_all_findings worker_results ([], []) of
        (by_type, roots) \<Rightarrow>
          (case common_of by_type [] of
             Inl e \<Rightarrow> Inl e
           | Inr common \<Rightarrow> Inr (common, roots)))"

text \<open>
  The clustering stated as a rule on the findings of one type, in their order of
  arrival, with the similarity \<open>strictly_similar\<close>: the first finding seeds a cluster
  that takes every later finding whose description is similar to the seed's; a seed
  that takes none is not reported; the findings not taken are clustered in the same
  way among themselves.
\<close>

definition similar_entries :: "finding_entry \<Rightarrow> finding_entry \<Rightarrow> bool" where
  "similar_entries f g =
     (case (fe_description f, fe_description g) of
        (Some a, Some b) \<Rightarrow> strictly_similar a b
      | _ \<Rightarrow> False)"

function seed_clusters :: "finding_entry list \<Rightarrow> cluster list" where
  "seed_clusters [] = []"
| "seed_clusters (f # fs) =
     (let joined = filter (similar_entries f) fs;
          left = filter (\<lambda>g. \<not> similar_entries f g) fs
      in (if joined \<noteq> [] then [make_cluster (fe_description f) (f # joined)] else []) @
         seed_clusters left)"
  by pat_completeness auto
termination
  by (relation "measure length") (auto simp: less_Suc_eq_le)

text \<open>The findings of one type over all worker results, as the entries that
  \<open>analyze_findings\<close> makes of them, and the entries a dict holds for a type.\<close>

definition finding_type :: "finding \<Rightarrow> string" where
  "finding_type f = (case ftype f of None \<Rightarrow> ''observation'' | Some t \<Rightarrow> t)"

definition entry_of :: "string \<Rightarrow> finding \<Rightarrow> finding_entry" where
  "entry_of sn f =
     \<lparr>fe_scenario = sn, fe_description = description f, fe_evidence = evidence f,
      fe_fix_suggestion = fix_suggestion f\<rparr>"

definition entries_of_type :: "string \<Rightarrow> WorkerResult list \<Rightarrow> finding_entry list" where
  "entries_of_type t rs =
     concat (map (\<lambda>r. map (entry_of (scenario_name r))
                         (filter (\<lambda>f. finding_type f = t) (findings r))) rs)"

definition entries_in :: "(string \<times> finding_entry list) list \<Rightarrow> string \<Rightarrow> finding_entry list" where
  "entries_in by_type t = (case map_of by_type t of None \<Rightarrow> [] | Some es \<Rightarrow> es)"

section \<open>The aggregator (result\_aggregator.py, models/aggregated\_results.py)\<close>

text \<open>An entry of \<open>scenario_results\<close>.\<close>

record scenario_summary =
  ss_success :: bool
  ss_duration :: "rat option"
  ss_error :: "string option"
  ss_worker_id :: string

text \<open>
  \<open>AggregatedResults\<close>. Counts are Python ints that only grow from 0, the float fields
  are exact rationals, and \<open>min_duration\<close> is \<open>None\<close> while it is \<open>float('inf')\<close>. The
  fields \<open>performance_metrics\<close>, \<open>test_data_usage\<close>, \<open>timeline\<close> and \<open>recommendations\<close>
  are left out, with the stages that assign them and nothing else.
\<close>

record AggregatedResults =
  total_scenarios :: nat
  successful_scenarios :: nat
  failed_scenarios :: nat
  success_rate :: rat
  total_duration :: rat
  average_duration :: rat
  min_duration :: "rat option"
  max_duration :: rat
  common_errors :: "(string \<times> nat) list"
  error_patterns :: "(string \<times> occurrence list) list"
  common_findings :: "(string \<times> cluster list) list"
  root_causes :: "finding list"
  scenario_results :: "(string \<times> scenario_summary) list"

definition AggregatedResults_init :: AggregatedResults where
  "AggregatedResults_init =
     \<lparr>total_scenarios = 0, successful_scenarios = 0, failed_scenarios = 0, success_rate = 0,
      total_duration = 0, average_duration = 0, min_duration = None, max_duration = 0,
      common_errors = [], error_patterns = [], common_findings = [], root_causes = [],
      scenario_results = []\<rparr>"

record ResultAggregator =
  worker_results :: "WorkerResult list"
  aggregated_results :: AggregatedResults

definition ResultAggregator_init :: ResultAggregator where
  "ResultAggregator_init = \<lparr>worker_results = [], aggregated_results = AggregatedResults_init\<rparr>"

definition add_result :: "ResultAggregator \<Rightarrow> WorkerResult \<Rightarrow> ResultAggregator" where
  "add_result a worker_result = a\<lparr>worker_results := worker_results a @ [worker_result]\<rparr>"

text \<open>Python's truth value of the duration: \<open>None\<close> and 0 are false.\<close>

fun nonzero :: "rat option \<Rightarrow> bool" where
  "nonzero None = False"
| "nonzero (Some d) = (d \<noteq> 0)"

text \<open>The body of the loop of \<open>_calculate_basic_stats\<close> for one worker result; it
  updates the object \<open>self.aggregated_results\<close> in place.\<close>

definition stats_step :: "AggregatedResults \<Rightarrow> WorkerResult \<Rightarrow> AggregatedResults" where
  "stats_step results worker_result =
     (let r1 = (if success worker_result
                then results\<lparr>successful_scenarios := successful_scenarios results + 1\<rparr>
                else results\<lparr>failed_scenarios := failed_scenarios results + 1\<rparr>);
          r2 = (if nonzero (duration worker_result)
                then (let d = the (duration worker_result)
                      in r1\<lparr>total_duration := total_duration r1 + d,
                            min_duration :=
                              Some (case min_duration r1 of None \<Rightarrow> d | Some m \<Rightarrow> min m d),
                            max_duration := max (max_duration r1) d\<rparr>)
                else r1)
      in r2\<lparr>scenario_results :=
              AList.update (scenario_name worker_result)
                \<lparr>ss_success = success worker_result, ss_duration = duration worker_result,
                 ss_error = error worker_result, ss_worker_id = worker_id worker_result\<rparr>
                (scenario_results r2)\<rparr>)"

definition calculate_basic_stats :: "ResultAggregator \<Rightarrow> ResultAggregator" where
  "calculate_basic_stats a =
     (let results = (aggregated_results a)\<lparr>total_scenarios := length (worker_results a)\<rparr>;
          results' = foldl stats_step results (worker_results a)
      in a\<lparr>aggregated_results :=
             (if total_scenarios results' > 0
              then results'\<lparr>success_rate :=
                              of_nat (successful_scenarios results') / of_nat (total_scenarios results'),
                            average_duration :=
                              total_duration results' / of_nat (total_scenarios results')\<rparr>
              else results')\<rparr>)"

definition analyze_errors_stage :: "ResultAggregator \<Rightarrow> ResultAggregator" where
  "analyze_errors_stage a =
     (case analyze_errors (worker_results a) of
        (ce, ep) \<Rightarrow>
          a\<lparr>aggregated_results := (aggregated_results a)\<lparr>common_errors := ce, error_patterns := ep\<rparr>\<rparr>)"

text \<open>
  \<open>aggregate\<close>: the returned value (or the exception that leaves the call) and the
  aggregator afterwards. The value returned is the object \<open>self.aggregated_results\<close>
  itself, the one every call works on.
\<close>

definition aggregate :: "ResultAggregator \<Rightarrow> (exn + AggregatedResults) \<times> ResultAggregator" where
  "aggregate a =
     (if worker_results a = [] then (Inr (aggregated_results a), a)
      else (let a1 = calculate_basic_stats a;
                a2 = analyze_errors_stage a1
            in case analyze_findings (worker_results a2) of
                 Inl e \<Rightarrow> (Inl e, a2)
               | Inr (common, roots) \<Rightarrow>
                   (let a3 = a2\<lparr>aggregated_results :=
                                  (aggregated_results a2)\<lparr>common_findings := common,
                                                          root_causes := roots\<rparr>\<rparr>
                    in (Inr (aggregated_results a3), a3))))"

text \<open>A worker result as the tests of the repository build them.\<close>

definition wres :: "string \<Rightarrow> bool \<Rightarrow> rat \<Rightarrow> string option \<Rightarrow> WorkerResult" where
  "wres sn ok secs err =
     \<lparr>worker_id = ''worker_0'', scenario_name = sn, success = ok, duration = Some secs,
      error = err, logs = [], findings = []\<rparr>"

definition fentry :: "string \<Rightarrow> string \<Rightarrow> finding_entry" where
  "fentry sn desc =
     \<lparr>fe_scenario = sn, fe_description = Some desc, fe_evidence = None, fe_fix_suggestion = None\<rparr>"

text \<open>
  The \<open>AggregatedResults\<close> object after a new aggregator has received the results one
  by one and \<open>aggregate()\<close> has been called once, and after it has been called a second
  time with nothing added in between.
\<close>

definition aggregate_once :: "WorkerResult list \<Rightarrow> AggregatedResults" where
  "aggregate_once rs =
     aggregated_results (snd (aggregate (foldl add_result ResultAggregator_init rs)))"

definition aggregate_twice :: "WorkerResult list \<Rightarrow> AggregatedResults" where
  "aggregate_twice rs =
     aggregated_results
       (snd (aggregate (snd (aggregate (foldl add_result ResultAggregator_init rs)))))"

text \<open>A worker result that carries one finding of the given type and description.\<close>

definition one_finding :: "string \<Rightarrow> string \<Rightarrow> string \<Rightarrow> WorkerResult" where
  "one_finding sn t desc =
     \<lparr>worker_id = ''worker_0'', scenario_name = sn, success = False, duration = Some 1,
      error = None, logs = [],
      findings = [\<lparr>ftype = Some t, description = Some desc, evidence = None,
                   fix_suggestion = None\<rparr>]\<rparr>"

section \<open>Port allocation: proofs\<close>

lemma take_ports_ok:
  "take_ports k limit np acc = (Inr ps, np') \<Longrightarrow>
     np \<le> np' \<and> set ps = set acc \<union> {np ..< np'} \<and>
     (distinct acc \<longrightarrow> (\<forall>a \<in> set acc. a < np) \<longrightarrow> distinct ps)"
proof (induction k arbitrary: np acc)
  case 0
  then show ?case by simp
next
  case (Suc k)
  from Suc.prems have lt: "np < limit" by (auto split: if_splits)
  with Suc.prems have "take_ports k limit (np + 1) (acc @ [np]) = (Inr ps, np')" by simp
  from Suc.IH[OF this]
  have le: "np + 1 \<le> np'"
    and st: "set ps = set (acc @ [np]) \<union> {np + 1 ..< np'}"
    and ds: "distinct (acc @ [np]) \<longrightarrow> (\<forall>a \<in> set (acc @ [np]). a < np + 1) \<longrightarrow> distinct ps"
    by auto
  from le have "insert np {np + 1 ..< np'} = {np ..< np'}" by auto
  with st have "set ps = set acc \<union> {np ..< np'}" by auto
  moreover from ds have "distinct acc \<longrightarrow> (\<forall>a \<in> set acc. a < np) \<longrightarrow> distinct ps"
    by fastforce
  ultimately show ?case using le by simp
qed

lemma take_ports_mono: "take_ports k limit np acc = (r, np') \<Longrightarrow> np \<le> np'"
proof (induction k arbitrary: np acc)
  case 0
  then show ?case by simp
next
  case (Suc k)
  show ?case
  proof (cases "np \<ge> limit")
    case True
    with Suc.prems show ?thesis by simp
  next
    case False
    with Suc.prems have "take_ports k limit (np + 1) (acc @ [np]) = (r, np')" by simp
    from Suc.IH[OF this] show ?thesis by simp
  qed
qed

lemma take_ports_exhausted:
  "int k > limit - np \<Longrightarrow> k > 0 \<Longrightarrow>
     \<exists>np'. take_ports k limit np acc = (Inl (RuntimeError ''Port range exhausted''), np')"
proof (induction k arbitrary: np acc)
  case 0
  then show ?case by simp
next
  case (Suc k)
  show ?case
  proof (cases "np \<ge> limit")
    case True
    then show ?thesis by simp
  next
    case False
    with Suc.prems have "int k > limit - (np + 1)" "k > 0" by auto
    from Suc.IH[OF this] False show ?thesis by simp
  qed
qed

lemma allocate_ports_held:
  "w \<in> dom (allocated_ports c) \<Longrightarrow>
     allocate_ports c w n = (Inl (ValueError (''Ports already allocated for worker '' @ w)), c)"
  by (simp add: allocate_ports_def)

lemma allocate_ports_error_table:
  "fst (allocate_ports c w n) = Inl e \<Longrightarrow>
     allocated_ports (snd (allocate_ports c w n)) = allocated_ports c"
  by (cases "w \<in> dom (allocated_ports c)")
     (auto simp: allocate_ports_def split: prod.splits sum.splits)

lemma allocate_ports_error_cursor:
  "fst (allocate_ports c w n) = Inl e \<Longrightarrow> next_port c \<le> next_port (snd (allocate_ports c w n))"
  by (cases "w \<in> dom (allocated_ports c)")
     (auto simp: allocate_ports_def split: prod.splits sum.splits dest: take_ports_mono)

lemma allocate_ports_success:
  assumes "allocate_ports c w n = (Inr ps, c')"
  shows "w \<notin> dom (allocated_ports c) \<and> next_port c \<le> next_port c' \<and>
         set ps = {next_port c ..< next_port c'} \<and> distinct ps \<and>
         allocated_ports c' = (allocated_ports c)(w \<mapsto> ps)"
proof -
  from assms have nd: "w \<notin> dom (allocated_ports c)"
    by (auto simp: allocate_ports_def split: if_splits)
  with assms obtain np where
    tp: "take_ports (nat n) (base_port c + port_range c) (next_port c) [] = (Inr ps, np)"
    and c': "c' = c\<lparr>next_port := np, allocated_ports := (allocated_ports c)(w \<mapsto> ps)\<rparr>"
    by (auto simp: allocate_ports_def split: prod.splits sum.splits)
  from take_ports_ok[OF tp] c' nd show ?thesis by simp
qed

lemma ports_inv_allocate:
  assumes "ports_inv c"
  shows "ports_inv (snd (allocate_ports c w n))"
proof (cases "fst (allocate_ports c w n)")
  case (Inl e)
  from allocate_ports_error_table[OF Inl] allocate_ports_error_cursor[OF Inl] assms
  show ?thesis
    by (fastforce simp: ports_inv_def below_cursor_def)
next
  case (Inr ps)
  define c' where "c' = snd (allocate_ports c w n)"
  from Inr have eq: "allocate_ports c w n = (Inr ps, c')"
    by (simp add: c'_def prod_eq_iff)
  from allocate_ports_success[OF eq]
  have nd: "allocated_ports c w = None" and le: "next_port c \<le> next_port c'"
    and st: "set ps = {next_port c ..< next_port c'}" and ds: "distinct ps"
    and tb: "allocated_ports c' = (allocated_ports c)(w \<mapsto> ps)"
    by auto
  from assms have ex: "ports_exclusive (allocated_ports c)" and bc: "below_cursor c"
    by (simp_all add: ports_inv_def)
  have old: "p < next_port c" if "allocated_ports c v = Some qs" "p \<in> set qs" for v qs p
    using bc that by (auto simp: below_cursor_def)
  have "below_cursor c'"
    unfolding below_cursor_def
  proof (intro allI impI ballI)
    fix v qs p assume a: "allocated_ports c' v = Some qs" "p \<in> set qs"
    show "p < next_port c'"
    proof (cases "v = w")
      case True
      with a tb st show ?thesis by auto
    next
      case False
      with a tb have "allocated_ports c v = Some qs" by simp
      from old[OF this a(2)] le show ?thesis by simp
    qed
  qed
  moreover have "ports_exclusive (allocated_ports c')"
    unfolding ports_exclusive_def
  proof (intro conjI allI impI)
    fix v qs assume "allocated_ports c' v = Some qs"
    with tb ds ex show "distinct qs"
      by (cases "v = w") (auto simp: ports_exclusive_def)
  next
    fix w1 w2 ps1 ps2
    assume a: "allocated_ports c' w1 = Some ps1" "allocated_ports c' w2 = Some ps2" "w1 \<noteq> w2"
    have fresh: "set qs \<inter> set ps = {}" if "allocated_ports c v = Some qs" for v qs
      using old[OF that] st by fastforce
    show "set ps1 \<inter> set ps2 = {}"
    proof (cases "w1 = w")
      case True
      with a tb have "ps1 = ps" "allocated_ports c w2 = Some ps2" by auto
      with fresh[of w2 ps2] show ?thesis by auto
    next
      case False
      note n1 = this
      with a tb have o1: "allocated_ports c w1 = Some ps1" by simp
      show ?thesis
      proof (cases "w2 = w")
        case True
        with a tb have "ps2 = ps" by auto
        with fresh[OF o1] show ?thesis by auto
      next
        case False
        with a tb have "allocated_ports c w2 = Some ps2" by simp
        with o1 a(3) ex show ?thesis by (auto simp: ports_exclusive_def)
      qed
    qed
  qed
  ultimately show ?thesis by (simp add: ports_inv_def c'_def)
qed

lemma ports_inv_release:
  assumes "ports_inv c"
  shows "ports_inv (release_ports c w)"
  using assms
  unfolding ports_inv_def ports_exclusive_def below_cursor_def release_ports_def
  by (auto split: if_splits)

lemma ports_inv_calls: "ports_inv c \<Longrightarrow> ports_inv (port_calls c calls)"
  unfolding port_calls_def
proof (induction calls arbitrary: c)
  case Nil
  then show ?case by simp
next
  case (Cons a calls)
  have "ports_inv (port_step c a)"
    using Cons.prems by (cases a) (simp_all add: ports_inv_allocate ports_inv_release)
  from Cons.IH[OF this] show ?case by simp
qed

lemma ports_inv_empty: "allocated_ports c = Map.empty \<Longrightarrow> ports_inv c"
  by (simp add: ports_inv_def ports_exclusive_def below_cursor_def)

lemma edge_case_config_eq:
  "edge_case_config =
     \<lparr>base_port = 3100, port_range = 2, max_workers = 2,
      allocated_ports = [''worker1'' \<mapsto> [3100, 3101]], next_port = 3102\<rparr>"
  by (simp add: edge_case_config_def port_calls_def ParallelDebugConfig_init_def
      allocate_ports_def numeral_2_eq_2)

section \<open>Port allocation: claims\<close>

text \<open>
  Claim C2. Starting from an empty allocation table, after any sequence of
  \<open>allocate_ports\<close> and \<open>release_ports\<close> calls no port is held by two workers (nor twice
  by one), and \<open>allocate_ports\<close> for a worker that still holds an allocation raises the
  \<open>ValueError\<close> "Ports already allocated" and leaves the configuration as it was.
\<close>

theorem C2_port_exclusivity:
  assumes "allocated_ports c0 = Map.empty"
  shows "ports_exclusive (allocated_ports (port_calls c0 calls)) \<and>
         (\<forall>w n. w \<in> dom (allocated_ports (port_calls c0 calls)) \<longrightarrow>
            allocate_ports (port_calls c0 calls) w n =
              (Inl (ValueError (''Ports already allocated for worker '' @ w)),
               port_calls c0 calls))"
proof -
  from assms have "ports_inv (port_calls c0 calls)"
    by (intro ports_inv_calls ports_inv_empty)
  then show ?thesis
    by (simp add: ports_inv_def allocate_ports_held)
qed

theorem C2_port_exclusivity_witness:
  "allocated_ports (ParallelDebugConfig_init 2) = Map.empty \<and>
   ports_exclusive (allocated_ports (port_calls (ParallelDebugConfig_init 2)
      [Allocate ''a'' 2, Allocate ''b'' 2, Release ''a'', Allocate ''c'' 1])) \<and>
   ''b'' \<in> dom (allocated_ports (port_calls (ParallelDebugConfig_init 2)
      [Allocate ''a'' 2, Allocate ''b'' 2, Release ''a'', Allocate ''c'' 1])) \<and>
   fst (allocate_ports (port_calls (ParallelDebugConfig_init 2)
      [Allocate ''a'' 2, Allocate ''b'' 2, Release ''a'', Allocate ''c'' 1]) ''b'' 2) =
     Inl (ValueError ''Ports already allocated for worker b'')"
proof -
  have e: "allocated_ports (ParallelDebugConfig_init 2) = Map.empty"
    by (simp add: ParallelDebugConfig_init_def)
  have d: "''b'' \<in> dom (allocated_ports (port_calls (ParallelDebugConfig_init 2)
      [Allocate ''a'' 2, Allocate ''b'' 2, Release ''a'', Allocate ''c'' 1]))"
    by (simp add: port_calls_def ParallelDebugConfig_init_def allocate_ports_def
        release_ports_def numeral_2_eq_2)
  from C2_port_exclusivity[OF e, of "[Allocate ''a'' 2, Allocate ''b'' 2, Release ''a'', Allocate ''c'' 1]"] e d
  show ?thesis by simp
qed

text \<open>
  Claim C5 as stated fails: with fewer than \<open>count\<close> ports left, a call for a worker
  that already holds an allocation raises the "already allocated" \<open>ValueError\<close>, not the
  exhaustion error, because that check comes first.
\<close>

theorem C5_counterexample:
  "int (ports_remaining edge_case_config) < 2 \<and>
   fst (allocate_ports edge_case_config ''worker1'' 2) =
     Inl (ValueError ''Ports already allocated for worker worker1'') \<and>
   fst (allocate_ports edge_case_config ''worker1'' 2) \<noteq>
     Inl (RuntimeError ''Port range exhausted'')"
  by (simp add: edge_case_config_eq ports_remaining_def allocate_ports_def)

text \<open>
  Claim C5, amended. When fewer than \<open>count\<close> ports remain, \<open>allocate_ports\<close> raises and
  leaves the allocation table unchanged; the exception is the exhaustion error
  \<open>RuntimeError "Port range exhausted"\<close> when the worker holds no allocation, and the
  "already allocated" \<open>ValueError\<close> when it does.
\<close>

theorem C5_exhaustion:
  assumes "int (ports_remaining c) < count"
  shows "allocated_ports (snd (allocate_ports c w count)) = allocated_ports c \<and>
         fst (allocate_ports c w count) =
           (if w \<in> dom (allocated_ports c)
            then Inl (ValueError (''Ports already allocated for worker '' @ w))
            else Inl (RuntimeError ''Port range exhausted''))"
proof (cases "w \<in> dom (allocated_ports c)")
  case True
  then show ?thesis by (simp add: allocate_ports_held)
next
  case False
  from assms have "int (nat count) > base_port c + port_range c - next_port c" "nat count > 0"
    unfolding ports_remaining_def by linarith+
  from take_ports_exhausted[OF this]
  obtain np where "take_ports (nat count) (base_port c + port_range c) (next_port c) [] =
      (Inl (RuntimeError ''Port range exhausted''), np)"
    by blast
  with False show ?thesis by (simp add: allocate_ports_def)
qed

theorem C5_exhaustion_witness:
  "int (ports_remaining edge_case_config) < 2 \<and>
   allocated_ports (snd (allocate_ports edge_case_config ''worker2'' 2)) =
     allocated_ports edge_case_config \<and>
   fst (allocate_ports edge_case_config ''worker2'' 2) = Inl (RuntimeError ''Port range exhausted'')"
proof -
  have h: "int (ports_remaining edge_case_config) < 2"
    by (simp add: edge_case_config_eq ports_remaining_def)
  have d: "''worker2'' \<notin> dom (allocated_ports edge_case_config)"
    by (simp add: edge_case_config_eq)
  from C5_exhaustion[OF h, of "''worker2''"] h d show ?thesis by simp
qed

section \<open>The scheduling loop: claims\<close>

lemma clash_run:
  "map_option launched
     (execute_scenarios 10 clash_world (ParallelDebugger_init (ParallelDebugConfig_init 2))
        clash_scenarios) =
   Some [(''worker_0'', ''A''), (''worker_1'', ''B''), (''worker_1'', ''D'')]"
  by code_simp

lemma clash_not_fresh:
  "\<not> fresh_ids [(''worker_0'', ''A''), (''worker_1'', ''B''), (''worker_1'', ''D'')]"
  by code_simp

text \<open>
  Claim C3 fails on the code. With four scenarios and at most two workers, where the
  first process has exited at the first poll, the loop ends after starting three
  processes: the third is started under the identifier \<open>worker_1\<close>, which the second,
  still running, already has. The identifiers are not pairwise distinct, the third is
  not \<open>worker_2\<close>, and scenario \<open>C\<close> is never started.
\<close>

theorem C3_worker_id_clash:
  "\<exists>d. execute_scenarios 10 clash_world (ParallelDebugger_init (ParallelDebugConfig_init 2))
          clash_scenarios = Some d \<and>
       launched d = [(''worker_0'', ''A''), (''worker_1'', ''B''), (''worker_1'', ''D'')] \<and>
       \<not> distinct (map fst (launched d)) \<and>
       \<not> fresh_ids (launched d)"
proof -
  from clash_run obtain d where
    d: "execute_scenarios 10 clash_world (ParallelDebugger_init (ParallelDebugConfig_init 2))
          clash_scenarios = Some d"
    and l: "launched d = [(''worker_0'', ''A''), (''worker_1'', ''B''), (''worker_1'', ''D'')]"
    by (auto simp: map_option_case split: option.splits)
  from l clash_not_fresh have "\<not> fresh_ids (launched d)" by simp
  moreover from l have "\<not> distinct (map fst (launched d))" by simp
  ultimately show ?thesis using d l by blast
qed

section \<open>The worker: proofs\<close>

lemma result_send_status [simp]: "result (send_status w st msg) = result w"
  by (simp add: send_status_def)

lemma killed_send_status [simp]: "killed (send_status w st msg) = killed w"
  by (simp add: send_status_def)

lemma script_cmd_nonempty: "script_cmd wld p = Some cmd \<Longrightarrow> p \<noteq> []"
  by (auto simp: script_cmd_def suffix_def split: if_splits)

lemma suffix_truthy: "suffix ''.py'' s \<or> suffix ''.js'' s \<Longrightarrow> truthy (Some s)"
  by (auto simp: suffix_def)

text \<open>What \<open>run\<close> leaves in the result, from the outcome of the dispatch.\<close>

lemma run_result:
  "result (run wld sc w) =
     (case fst (run_dispatch wld sc w) of
        Inr u \<Rightarrow> complete_result (result (snd (run_dispatch wld sc w))) (clock wld) True None
      | Inl e \<Rightarrow> complete_result (result (snd (run_dispatch wld sc w))) (clock wld) False (Some (str_exn e)))"
  by (simp add: run_def Let_def send_status_def split: prod.splits sum.splits)

lemma run_killed: "killed (run wld sc w) = killed (snd (run_dispatch wld sc w))"
  by (simp add: run_def Let_def send_status_def split: prod.splits sum.splits)

lemma run_success: "success (result (run wld sc w)) \<longleftrightarrow> \<not> isl (fst (run_dispatch wld sc w))"
  by (simp add: run_result complete_result_def split: sum.splits)

lemma run_error:
  "error (result (run wld sc w)) =
     (case fst (run_dispatch wld sc w) of Inr u \<Rightarrow> None | Inl e \<Rightarrow> Some (str_exn e))"
  by (simp add: run_result complete_result_def split: sum.splits)

text \<open>With the session started, a script-launching strategy whose script resolves
  hands it to \<open>_execute_test_script\<close>, after the two status events.\<close>

lemma dispatch_resolved:
  assumes "session_init wld = None" "launches_script (test_type sc)"
    and "resolved_script wld sc = Inr (Some p)" "truthy (Some p)"
  shows "\<exists>w1. run_dispatch wld sc w = execute_test_script wld sc w1 p \<and>
              result w1 = result w \<and> killed w1 = killed w"
  using assms
  by (auto simp: run_dispatch_def launches_script_def resolved_script_def direct_match_def
      Let_def run_ui_test_def run_api_test_def run_integration_test_def
      run_performance_test_def split: if_splits)

lemma dispatch_unresolved:
  assumes "session_init wld = None" "launches_script (test_type sc)" "\<not> direct_match sc"
    and "find_test_script wld (test_function sc) = Inr ts" "\<not> truthy ts"
  shows "fst (run_dispatch wld sc w) =
           (if test_type sc = UI_FLOW
            then Inl (FileNotFoundError (''Test script not found: '' @ test_function sc))
            else Inr ())"
  using assms
  by (auto simp: run_dispatch_def launches_script_def direct_match_def Let_def
      run_ui_test_def run_api_test_def run_integration_test_def run_performance_test_def
      split: if_splits)

lemma dispatch_search_raises:
  assumes "session_init wld = None" "launches_script (test_type sc)" "\<not> direct_match sc"
    and "find_test_script wld (test_function sc) = Inl e"
  shows "fst (run_dispatch wld sc w) = Inl e"
  using assms
  by (auto simp: run_dispatch_def launches_script_def direct_match_def Let_def
      run_ui_test_def run_api_test_def run_integration_test_def run_performance_test_def
      split: if_splits)

lemma dispatch_no_session:
  assumes "session_init wld = Some m"
  shows "fst (run_dispatch wld sc w) = Inl (OtherError m)"
  using assms by (simp add: run_dispatch_def)

lemma execute_child:
  assumes "script_cmd wld p = Some cmd" "spawn wld cmd = Child secs rc out err"
  shows "fst (execute_test_script wld sc w p) =
           (if secs > of_int (timeout sc)
            then Inl (TimeoutError (''Test exceeded timeout of '' @ str_int (timeout sc) @ ''s''))
            else if rc \<noteq> 0
            then Inl (RuntimeError (''Failed to execute test script: '' @
                        ''Test script failed with code '' @ str_int rc))
            else Inr ())"
    and "killed (snd (execute_test_script wld sc w p)) = (secs > of_int (timeout sc) \<or> killed w)"
  using assms
  by (auto simp: execute_test_script_def run_child_def Let_def)

section \<open>The worker: claims\<close>

text \<open>
  Claim C4 as stated fails: an API test whose test function resolves to no script is
  not an error. \<open>_run_api_test\<close> guards the launch with \<open>if test_script:\<close>, skips it,
  and the worker completes with \<open>success = True\<close> and no error.
\<close>

theorem C4_counterexample:
  "launches_script (test_type (scn ''missing'' API_TEST)) \<and>
   resolved_script no_script_world (scn ''missing'' API_TEST) = Inr None \<and>
   success (run_worker no_script_world ''worker_0'' (scn ''missing'' API_TEST)) \<and>
   error (run_worker no_script_world ''worker_0'' (scn ''missing'' API_TEST)) = None"
  by (simp add: launches_script_def resolved_script_def direct_match_def scn_def
      no_script_world_def run_worker_def run_result run_dispatch_def run_api_test_def
      complete_result_def Let_def)

text \<open>
  Claim C4, amended. Take a scenario of a script-launching type whose test function
  has no direct extension match. If the session initialisation returns and the search
  over the fixed roots ends without a match, a UI flow fails with the not-found error
  \<open>FileNotFoundError "Test script not found: ..."\<close> and its result records
  \<open>success = False\<close> with that message, while an API, integration or performance test
  skips the launch and its result records \<open>success = True\<close> with no error. If the
  session initialisation returns and the search itself raises, the scenario fails with
  that exception, whatever its type, and the result records \<open>success = False\<close> with
  that exception's message. If the session initialisation raises, the result records
  \<open>success = False\<close> with the message of that exception.
\<close>

theorem C4_unresolved_script:
  assumes "launches_script (test_type sc)" and "\<not> direct_match sc"
  shows "(\<forall>ts. session_init wld = None \<and>
               find_test_script wld (test_function sc) = Inr ts \<and> \<not> truthy ts \<longrightarrow>
            (if test_type sc = UI_FLOW
             then fst (run_dispatch wld sc (DebugWorker_init wid sc)) =
                    Inl (FileNotFoundError (''Test script not found: '' @ test_function sc)) \<and>
                  \<not> success (run_worker wld wid sc) \<and>
                  error (run_worker wld wid sc) =
                    Some (''Test script not found: '' @ test_function sc)
             else fst (run_dispatch wld sc (DebugWorker_init wid sc)) = Inr () \<and>
                  success (run_worker wld wid sc) \<and>
                  error (run_worker wld wid sc) = None)) \<and>
         (\<forall>e. session_init wld = None \<and> find_test_script wld (test_function sc) = Inl e \<longrightarrow>
            fst (run_dispatch wld sc (DebugWorker_init wid sc)) = Inl e \<and>
            \<not> success (run_worker wld wid sc) \<and>
            error (run_worker wld wid sc) = Some (str_exn e)) \<and>
         (\<forall>m. session_init wld = Some m \<longrightarrow>
            \<not> success (run_worker wld wid sc) \<and>
            error (run_worker wld wid sc) = Some m)"
proof (intro conjI allI impI)
  fix ts
  assume h: "session_init wld = None \<and>
             find_test_script wld (test_function sc) = Inr ts \<and> \<not> truthy ts"
  then have "fst (run_dispatch wld sc (DebugWorker_init wid sc)) =
           (if test_type sc = UI_FLOW
            then Inl (FileNotFoundError (''Test script not found: '' @ test_function sc))
            else Inr ())"
    using dispatch_unresolved[OF _ assms, of wld ts "DebugWorker_init wid sc"] by blast
  then show "if test_type sc = UI_FLOW
             then fst (run_dispatch wld sc (DebugWorker_init wid sc)) =
                    Inl (FileNotFoundError (''Test script not found: '' @ test_function sc)) \<and>
                  \<not> success (run_worker wld wid sc) \<and>
                  error (run_worker wld wid sc) =
                    Some (''Test script not found: '' @ test_function sc)
             else fst (run_dispatch wld sc (DebugWorker_init wid sc)) = Inr () \<and>
                  success (run_worker wld wid sc) \<and>
                  error (run_worker wld wid sc) = None"
    by (simp add: run_worker_def run_success run_error)
next
  fix e
  assume h: "session_init wld = None \<and> find_test_script wld (test_function sc) = Inl e"
  then have d: "fst (run_dispatch wld sc (DebugWorker_init wid sc)) = Inl e"
    using dispatch_search_raises[OF _ assms, of wld e "DebugWorker_init wid sc"] by blast
  then show "fst (run_dispatch wld sc (DebugWorker_init wid sc)) = Inl e" .
  from d show "\<not> success (run_worker wld wid sc)"
    by (simp add: run_worker_def run_success)
  from d show "error (run_worker wld wid sc) = Some (str_exn e)"
    by (simp add: run_worker_def run_error)
next
  fix m
  assume "session_init wld = Some m"
  from dispatch_no_session[OF this, of sc "DebugWorker_init wid sc"]
  show "\<not> success (run_worker wld wid sc)" and "error (run_worker wld wid sc) = Some m"
    by (simp_all add: run_worker_def run_success run_error)
qed

theorem C4_unresolved_script_witness:
  "launches_script (test_type (scn ''missing'' UI_FLOW)) \<and>
   \<not> direct_match (scn ''missing'' UI_FLOW) \<and>
   session_init no_script_world = None \<and>
   find_test_script no_script_world (test_function (scn ''missing'' UI_FLOW)) = Inr None \<and>
   \<not> truthy None \<and>
   \<not> success (run_worker no_script_world ''worker_0'' (scn ''missing'' UI_FLOW)) \<and>
   error (run_worker no_script_world ''worker_0'' (scn ''missing'' UI_FLOW)) =
     Some ''Test script not found: missing'' \<and>
   session_init raising_search_world = None \<and>
   find_test_script raising_search_world (test_function (scn ''missing'' UI_FLOW)) =
     Inl (NotImplementedError ''Non-relative patterns are unsupported'') \<and>
   error (run_worker raising_search_world ''worker_0'' (scn ''missing'' UI_FLOW)) =
     Some ''Non-relative patterns are unsupported'' \<and>
   session_init no_session_world = Some ''[Errno 2] No such file or directory'' \<and>
   error (run_worker no_session_world ''worker_0'' (scn ''missing'' UI_FLOW)) =
     Some ''[Errno 2] No such file or directory''"
proof -
  have b: "launches_script (test_type (scn ''missing'' UI_FLOW))"
    by (simp add: launches_script_def scn_def)
  have c: "\<not> direct_match (scn ''missing'' UI_FLOW)"
    by (simp add: direct_match_def scn_def suffix_to_prefix)
  have t: "test_type (scn ''missing'' UI_FLOW) = UI_FLOW"
    and f: "test_function (scn ''missing'' UI_FLOW) = ''missing''"
    by (simp_all add: scn_def)
  have w1: "session_init no_script_world = None"
    "find_test_script no_script_world ''missing'' = Inr None"
    by (simp_all add: no_script_world_def)
  have w2: "session_init raising_search_world = None"
    "find_test_script raising_search_world ''missing'' =
       Inl (NotImplementedError ''Non-relative patterns are unsupported'')"
    by (simp_all add: raising_search_world_def no_script_world_def)
  have w3: "session_init no_session_world = Some ''[Errno 2] No such file or directory''"
    by (simp add: no_session_world_def no_script_world_def)
  from C4_unresolved_script[OF b c, of no_script_world "''worker_0''"] w1
  have r1: "\<not> success (run_worker no_script_world ''worker_0'' (scn ''missing'' UI_FLOW)) \<and>
            error (run_worker no_script_world ''worker_0'' (scn ''missing'' UI_FLOW)) =
              Some ''Test script not found: missing''"
    by (simp add: t f)
  from C4_unresolved_script[OF b c, of raising_search_world "''worker_0''"] w2
  have r2: "error (run_worker raising_search_world ''worker_0'' (scn ''missing'' UI_FLOW)) =
              Some ''Non-relative patterns are unsupported''"
    by (simp add: t f)
  from C4_unresolved_script[OF b c, of no_session_world "''worker_0''"] w3
  have r3: "error (run_worker no_session_world ''worker_0'' (scn ''missing'' UI_FLOW)) =
              Some ''[Errno 2] No such file or directory''"
    by simp
  from b c w1 w2 w3 r1 r2 r3 show ?thesis by (simp add: f)
qed

text \<open>
  Claim C6. Once the session has started and a script-launching strategy has resolved
  and launched its script: if the child runs longer than \<open>scenario.timeout\<close> seconds it is
  killed, the execution raises \<open>TimeoutError\<close>, and the final result has
  \<open>success = False\<close> with the error "Test exceeded timeout of <timeout>s"; if the child
  exits within the time with a non-zero code, the execution raises a \<open>RuntimeError\<close> whose
  message carries that code, and the final result has \<open>success = False\<close>.
\<close>

theorem C6_timeout_and_exit_code:
  assumes "session_init wld = None"
    and "launches_script (test_type sc)"
    and "resolved_script wld sc = Inr (Some p)"
    and "script_cmd wld p = Some cmd"
    and "spawn wld cmd = Child secs rc out err"
  shows "(secs > of_int (timeout sc) \<longrightarrow>
            fst (run_dispatch wld sc (DebugWorker_init wid sc)) =
              Inl (TimeoutError (''Test exceeded timeout of '' @ str_int (timeout sc) @ ''s'')) \<and>
            killed (run wld sc (DebugWorker_init wid sc)) \<and>
            \<not> success (run_worker wld wid sc) \<and>
            error (run_worker wld wid sc) =
              Some (''Test exceeded timeout of '' @ str_int (timeout sc) @ ''s'')) \<and>
         (\<not> secs > of_int (timeout sc) \<and> rc \<noteq> 0 \<longrightarrow>
            fst (run_dispatch wld sc (DebugWorker_init wid sc)) =
              Inl (RuntimeError (''Failed to execute test script: '' @
                     ''Test script failed with code '' @ str_int rc)) \<and>
            \<not> success (run_worker wld wid sc) \<and>
            error (run_worker wld wid sc) =
              Some (''Failed to execute test script: '' @
                    ''Test script failed with code '' @ str_int rc))"
proof -
  from script_cmd_nonempty[OF assms(4)] have tr: "truthy (Some p)" by simp
  from dispatch_resolved[OF assms(1,2,3) tr, of "DebugWorker_init wid sc"]
  obtain w1 where
    d: "run_dispatch wld sc (DebugWorker_init wid sc) = execute_test_script wld sc w1 p"
    by blast
  note ex = execute_child[OF assms(4,5), of sc w1]
  show ?thesis
    by (simp add: run_worker_def run_success run_error run_killed d ex)
qed

theorem C6_timeout_and_exit_code_witness:
  "session_init (script_world 200 0) = None \<and>
   launches_script (test_type (scn ''slow'' UI_FLOW)) \<and>
   resolved_script (script_world 200 0) (scn ''slow'' UI_FLOW) =
     Inr (Some ''test_scripts/slow.py'') \<and>
   script_cmd (script_world 200 0) ''test_scripts/slow.py'' =
     Some [''python3'', ''test_scripts/slow.py''] \<and>
   spawn (script_world 200 0) [''python3'', ''test_scripts/slow.py''] = Child 200 0 [] [] \<and>
   (200 :: rat) > of_int (timeout (scn ''slow'' UI_FLOW)) \<and>
   killed (run (script_world 200 0) (scn ''slow'' UI_FLOW)
             (DebugWorker_init ''worker_0'' (scn ''slow'' UI_FLOW))) \<and>
   \<not> success (run_worker (script_world 200 0) ''worker_0'' (scn ''slow'' UI_FLOW)) \<and>
   error (run_worker (script_world 200 0) ''worker_0'' (scn ''slow'' UI_FLOW)) =
     Some ''Test exceeded timeout of 120s''"
proof -
  have a: "session_init (script_world 200 0) = None"
    by (simp add: script_world_def)
  have b: "launches_script (test_type (scn ''slow'' UI_FLOW))"
    by (simp add: launches_script_def scn_def)
  have c: "resolved_script (script_world 200 0) (scn ''slow'' UI_FLOW) =
             Inr (Some ''test_scripts/slow.py'')"
    by (simp add: resolved_script_def direct_match_def scn_def script_world_def suffix_to_prefix)
  have d: "script_cmd (script_world 200 0) ''test_scripts/slow.py'' =
     Some [''python3'', ''test_scripts/slow.py'']"
    by (simp add: script_cmd_def script_world_def suffix_to_prefix)
  have e: "spawn (script_world 200 0) [''python3'', ''test_scripts/slow.py''] = Child 200 0 [] []"
    by (simp add: script_world_def)
  have t: "timeout (scn ''slow'' UI_FLOW) = 120"
    by (simp add: scn_def)
  have s: "str_int 120 = ''120''"
    by code_simp
  from C6_timeout_and_exit_code[OF a b c d e, of "''worker_0''"] a b c d e show ?thesis
    by (simp add: t s)
qed

text \<open>
  Claim C10 as stated fails: the session is initialised before the dispatch, and when
  that raises, the error of the result is the message of that exception and does not
  name the test type.
\<close>

theorem C10_counterexample:
  "test_type (scn ''scan'' SECURITY) = SECURITY \<and>
   \<not> success (run_worker no_session_world ''worker_0'' (scn ''scan'' SECURITY)) \<and>
   error (run_worker no_session_world ''worker_0'' (scn ''scan'' SECURITY)) =
     Some ''[Errno 2] No such file or directory'' \<and>
   error (run_worker no_session_world ''worker_0'' (scn ''scan'' SECURITY)) \<noteq>
     Some ''Unknown test type: TestType.SECURITY''"
  by (simp add: scn_def no_session_world_def no_script_world_def run_worker_def run_result
      run_dispatch_def complete_result_def)

text \<open>
  Claim C10, amended. A scenario of type \<open>SECURITY\<close> never succeeds: its final result
  always has \<open>success = False\<close>. When the session initialisation returns, the dispatch
  matches none of the five strategies and raises
  \<open>ValueError "Unknown test type: TestType.SECURITY"\<close>, no strategy sends its "running"
  status, and that message is the error of the result. When the session
  initialisation raises, the dispatch is not reached and the error of the result is
  the message of that exception.
\<close>

theorem C10_security_unknown_type:
  assumes "test_type sc = SECURITY"
  shows "\<not> success (run_worker wld wid sc) \<and>
         (session_init wld = None \<longrightarrow>
            fst (run_dispatch wld sc (DebugWorker_init wid sc)) =
              Inl (ValueError ''Unknown test type: TestType.SECURITY'') \<and>
            error (run_worker wld wid sc) = Some ''Unknown test type: TestType.SECURITY'' \<and>
            map fst (statuses (run wld sc (DebugWorker_init wid sc))) =
              [''starting'', ''failed'', ''cleanup'']) \<and>
         (\<forall>m. session_init wld = Some m \<longrightarrow>
            fst (run_dispatch wld sc (DebugWorker_init wid sc)) = Inl (OtherError m) \<and>
            error (run_worker wld wid sc) = Some m)"
proof -
  have f: "isl (fst (run_dispatch wld sc (DebugWorker_init wid sc)))"
    using assms by (simp add: run_dispatch_def Let_def split: option.splits)
  have d: "run_dispatch wld sc (DebugWorker_init wid sc) =
             (Inl (ValueError ''Unknown test type: TestType.SECURITY''),
              send_status (DebugWorker_init wid sc) ''starting'' (''Initializing '' @ name sc))"
    if "session_init wld = None"
    using assms that by (simp add: run_dispatch_def Let_def)
  have s: "map fst (statuses (run wld sc (DebugWorker_init wid sc))) =
              [''starting'', ''failed'', ''cleanup'']"
    if "session_init wld = None"
    unfolding run_def d[OF that]
    by (simp add: send_status_def DebugWorker_init_def Let_def)
  have n: "fst (run_dispatch wld sc (DebugWorker_init wid sc)) = Inl (OtherError m) \<and>
           error (run_worker wld wid sc) = Some m"
    if "session_init wld = Some m" for m
    using dispatch_no_session[OF that, of sc "DebugWorker_init wid sc"]
    by (simp add: run_worker_def run_error)
  from f d s n show ?thesis
    by (simp add: run_worker_def run_success run_error)
qed

theorem C10_security_unknown_type_witness:
  "test_type (scn ''scan'' SECURITY) = SECURITY \<and>
   session_init no_script_world = None \<and>
   \<not> success (run_worker no_script_world ''worker_0'' (scn ''scan'' SECURITY)) \<and>
   error (run_worker no_script_world ''worker_0'' (scn ''scan'' SECURITY)) =
     Some ''Unknown test type: TestType.SECURITY'' \<and>
   session_init no_session_world = Some ''[Errno 2] No such file or directory'' \<and>
   error (run_worker no_session_world ''worker_0'' (scn ''scan'' SECURITY)) =
     Some ''[Errno 2] No such file or directory''"
proof -
  have a: "test_type (scn ''scan'' SECURITY) = SECURITY"
    by (simp add: scn_def)
  have b: "session_init no_script_world = None"
    by (simp add: no_script_world_def)
  have c: "session_init no_session_world = Some ''[Errno 2] No such file or directory''"
    by (simp add: no_session_world_def no_script_world_def)
  from C10_security_unknown_type[OF a, of no_script_world "''worker_0''"]
    C10_security_unknown_type[OF a, of no_session_world "''worker_0''"] a b c
  show ?thesis by simp
qed

section \<open>Error pattern analysis: proofs\<close>

lemma timeout_examples:
  "search (the (map_of error_patterns_table ''timeout'')) ''Timeout exceeded''"
  "search (the (map_of error_patterns_table ''timeout'')) ''Timeout waiting for element''"
  "search (the (map_of error_patterns_table ''authentication'')) ''401 Unauthorized''"
  by code_simp+



lemma of_char_lower:
  "(of_char (lower_char c) :: nat) =
     (if (65 \<le> (of_char c :: nat) \<and> (of_char c :: nat) \<le> 90) \<or>
         (192 \<le> (of_char c :: nat) \<and> (of_char c :: nat) \<le> 222 \<and> (of_char c :: nat) \<noteq> 215)
      then of_char c + 32 else of_char c)"
  by (auto simp: lower_char_def Let_def)

lemma lower_char_idem: "lower_char (lower_char c) = lower_char c"
proof -
  have "(of_char (lower_char (lower_char c)) :: nat) = of_char (lower_char c)"
    unfolding of_char_lower[of "lower_char c"] unfolding of_char_lower[of c]
    by auto
  then show ?thesis by simp
qed

lemma lower_char_newline: "lower_char c = CHR 0x0A \<longleftrightarrow> c = CHR 0x0A"
proof -
  have "(of_char (lower_char c) :: nat) = 10 \<longleftrightarrow> (of_char c :: nat) = 10"
    unfolding of_char_lower by auto
  moreover have "(of_char (CHR 0x0A) :: nat) = 10" by simp
  ultimately show ?thesis by (metis of_char_eq_iff)
qed

lemma isdigit_lower: "isdigit (lower_char c) = isdigit c"
  unfolding isdigit_def Let_def of_char_lower by auto

lemma matches_here_lower: "matches_here k (lower s) = matches_here k s"
  unfolding lower_def
  by (induction k s rule: matches_here.induct)
     (simp_all add: lower_char_idem lower_char_newline isdigit_lower)

lemma search_lower: "search r (lower s) = search r s"
proof (induction s)
  case Nil
  then show ?case by (simp add: lower_def)
next
  case (Cons c s)
  have "matches_here [r] (lower (c # s)) = matches_here [r] (c # s)"
    by (rule matches_here_lower)
  with Cons show ?case by (simp add: lower_def)
qed

lemma search_same_lower: "lower e' = lower e \<Longrightarrow> search r e' = search r e"
  by (metis search_lower)

lemma occurrences_add:
  "set (occurrences c (add_occurrence cat occ cats)) =
     (if c = cat then insert occ (set (occurrences c cats)) else set (occurrences c cats))"
  by (auto simp: occurrences_def add_occurrence_def update_conv' map_add_def
      split: option.splits)

lemma occurrences_categorize:
  "set (occurrences c (categorize ps text occ cats)) =
     set (occurrences c cats) \<union>
     (if \<exists>pat. (c, pat) \<in> set ps \<and> search pat text then {occ} else {})"
proof (induction ps arbitrary: cats)
  case Nil
  then show ?case by simp
next
  case (Cons p ps)
  obtain category pattern where p: "p = (category, pattern)" by (cases p)
  show ?case
    unfolding p categorize.simps Cons.IH
    by (auto simp: occurrences_add)
qed

lemma occurrences_logs:
  "ErrorOcc sn e \<in> set (occurrences c (categorize_logs sn' ls cats)) \<longleftrightarrow>
   ErrorOcc sn e \<in> set (occurrences c cats)"
  by (induction ls arbitrary: cats) (simp_all add: occurrences_categorize)



lemma occurrences_error_step:
  "ErrorOcc sn e \<in> set (occurrences c
      (categorize_logs sn' ls (categorize error_patterns_table e' (ErrorOcc sn' e') cats))) \<longleftrightarrow>
   ErrorOcc sn e \<in> set (occurrences c cats) \<or>
   (sn' = sn \<and> e' = e \<and> (\<exists>pat. (c, pat) \<in> set error_patterns_table \<and> search pat e))"
  unfolding occurrences_logs occurrences_categorize by auto

lemma collect_errors_step:
  "collect_errors (r # rs) (msgs, cats) =
     (if \<not> success r \<and> truthy (error r)
      then collect_errors rs (msgs @ [the (error r)],
              categorize_logs (scenario_name r) (logs r)
                (categorize error_patterns_table (the (error r))
                   (ErrorOcc (scenario_name r) (the (error r))) cats))
      else collect_errors rs (msgs, cats))"
  by simp

lemma occurrences_collect:
  "ErrorOcc sn e \<in> set (occurrences c (snd (collect_errors rs (msgs, cats)))) \<longleftrightarrow>
     ErrorOcc sn e \<in> set (occurrences c cats) \<or>
     (\<exists>r \<in> set rs. \<not> success r \<and> error r = Some e \<and> e \<noteq> [] \<and> scenario_name r = sn \<and>
        (\<exists>pat. (c, pat) \<in> set error_patterns_table \<and> search pat e))"
proof (induction rs arbitrary: msgs cats)
  case Nil
  then show ?case by simp
next
  case (Cons r rs)
  let ?hit = "\<lambda>r. \<not> success r \<and> error r = Some e \<and> e \<noteq> [] \<and> scenario_name r = sn \<and>
        (\<exists>pat. (c, pat) \<in> set error_patterns_table \<and> search pat e)"
  show ?case
  proof (cases "\<not> success r \<and> truthy (error r)")
    case True
    then obtain e' where e': "error r = Some e'" "e' \<noteq> []" and f: "\<not> success r"
      by (cases "error r") auto
    have step: "collect_errors (r # rs) (msgs, cats) =
        collect_errors rs (msgs @ [e'],
          categorize_logs (scenario_name r) (logs r)
            (categorize error_patterns_table e' (ErrorOcc (scenario_name r) e') cats))"
    proof -
      have "collect_errors (r # rs) (msgs, cats) =
        collect_errors rs (msgs @ [the (error r)],
          categorize_logs (scenario_name r) (logs r)
            (categorize error_patterns_table (the (error r))
               (ErrorOcc (scenario_name r) (the (error r))) cats))"
        unfolding collect_errors_step if_P[OF True] ..
      then show ?thesis unfolding e' option.sel .
    qed
    have h: "?hit r \<longleftrightarrow> (scenario_name r = sn \<and> e' = e \<and>
               (\<exists>pat. (c, pat) \<in> set error_patterns_table \<and> search pat e))"
      using e' f by auto
    have "ErrorOcc sn e \<in> set (occurrences c (snd (collect_errors (r # rs) (msgs, cats)))) \<longleftrightarrow>
          (ErrorOcc sn e \<in> set (occurrences c cats) \<or>
           (scenario_name r = sn \<and> e' = e \<and>
               (\<exists>pat. (c, pat) \<in> set error_patterns_table \<and> search pat e))) \<or>
          (\<exists>r \<in> set rs. ?hit r)"
      unfolding step Cons.IH occurrences_error_step ..
    with h show ?thesis by auto
  next
    case False
    then have nh: "\<not> ?hit r"
      by (cases "error r") auto
    have step: "collect_errors (r # rs) (msgs, cats) = collect_errors rs (msgs, cats)"
      unfolding collect_errors_step if_not_P[OF False] ..
    have "ErrorOcc sn e \<in> set (occurrences c (snd (collect_errors (r # rs) (msgs, cats)))) \<longleftrightarrow>
          ErrorOcc sn e \<in> set (occurrences c cats) \<or> (\<exists>r \<in> set rs. ?hit r)"
      unfolding step Cons.IH ..
    with nh show ?thesis by auto
  qed
qed

lemma table_distinct: "distinct (map fst error_patterns_table)"
  by code_simp

lemma pattern_lookups:
  "map_of error_patterns_table ''timeout'' = Some (the (map_of error_patterns_table ''timeout''))"
  "map_of error_patterns_table ''authentication'' =
     Some (the (map_of error_patterns_table ''authentication''))"
  "map_of error_patterns_table ''connection'' =
     Some (the (map_of error_patterns_table ''connection''))"
  "map_of error_patterns_table ''database'' = Some (the (map_of error_patterns_table ''database''))"
  by code_simp+

lemma database_examples:
  "search (the (map_of error_patterns_table ''connection'')) ''Database connection failed''"
  "search (the (map_of error_patterns_table ''database'')) ''Database connection failed''"
  by code_simp+

lemma occurrences_Nil: "occurrences c [] = []"
  by (simp add: occurrences_def)

lemma occurrences_analyze:
  assumes "(c, pat) \<in> set error_patterns_table"
  shows "ErrorOcc sn e \<in> set (occurrences c (snd (analyze_errors rs))) \<longleftrightarrow>
     (\<exists>r \<in> set rs. \<not> success r \<and> error r = Some e \<and> e \<noteq> [] \<and> scenario_name r = sn) \<and>
     search pat e"
proof -
  have u: "pat' = pat" if "(c, pat') \<in> set error_patterns_table" for pat'
  proof -
    from that have "map_of error_patterns_table c = Some pat'"
      by (rule map_of_is_SomeI[OF table_distinct])
    moreover from assms have "map_of error_patterns_table c = Some pat"
      by (rule map_of_is_SomeI[OF table_distinct])
    ultimately show ?thesis by simp
  qed
  have eq: "snd (analyze_errors rs) = snd (collect_errors rs ([], []))"
    unfolding analyze_errors_def by (cases "collect_errors rs ([], [])") simp
  have p: "(\<exists>pat'. (c, pat') \<in> set error_patterns_table \<and> search pat' e) \<longleftrightarrow> search pat e"
    using assms u by blast
  have "ErrorOcc sn e \<in> set (occurrences c (snd (analyze_errors rs))) \<longleftrightarrow>
        ErrorOcc sn e \<in> set (occurrences c []) \<or>
        (\<exists>r \<in> set rs. \<not> success r \<and> error r = Some e \<and> e \<noteq> [] \<and> scenario_name r = sn \<and>
           (\<exists>pat. (c, pat) \<in> set error_patterns_table \<and> search pat e))"
    unfolding eq by (rule occurrences_collect)
  then show ?thesis
    unfolding p occurrences_Nil by auto
qed


section \<open>Error pattern analysis: claims\<close>

text \<open>
  Claim C9. For a failed worker result with a non-empty error string, the entry of its
  scenario and error is placed in a category exactly when that category's pattern is
  found in the error, for each of the seven categories independently, so that a message
  may land in several; the search does not depend on letter case. "Timeout exceeded"
  and "Timeout waiting for element" land in \<open>timeout\<close>, "401 Unauthorized" lands in
  \<open>authentication\<close>, and "Database connection failed" lands in both \<open>connection\<close> and
  \<open>database\<close>.
\<close>

theorem C9_error_classification:
  assumes "r \<in> set rs" and "\<not> success r" and "error r = Some e" and "e \<noteq> []"
  shows "(\<forall>(cat, pat) \<in> set error_patterns_table.
            (ErrorOcc (scenario_name r) e \<in> set (occurrences cat (snd (analyze_errors rs)))
               \<longleftrightarrow> search pat e) \<and>
            (\<forall>e'. lower e' = lower e \<longrightarrow> search pat e' = search pat e)) \<and>
         (e = ''Timeout exceeded'' \<or> e = ''Timeout waiting for element'' \<longrightarrow>
            ErrorOcc (scenario_name r) e \<in>
              set (occurrences ''timeout'' (snd (analyze_errors rs)))) \<and>
         (e = ''401 Unauthorized'' \<longrightarrow>
            ErrorOcc (scenario_name r) e \<in>
              set (occurrences ''authentication'' (snd (analyze_errors rs)))) \<and>
         (e = ''Database connection failed'' \<longrightarrow>
            ErrorOcc (scenario_name r) e \<in>
              set (occurrences ''connection'' (snd (analyze_errors rs))) \<and>
            ErrorOcc (scenario_name r) e \<in>
              set (occurrences ''database'' (snd (analyze_errors rs))))"
proof -
  have here: "\<exists>r' \<in> set rs. \<not> success r' \<and> error r' = Some e \<and> e \<noteq> [] \<and>
                scenario_name r' = scenario_name r"
    using assms by blast
  have cls: "ErrorOcc (scenario_name r) e \<in> set (occurrences cat (snd (analyze_errors rs)))
               \<longleftrightarrow> search pat e"
    if "(cat, pat) \<in> set error_patterns_table" for cat pat
    unfolding occurrences_analyze[OF that] using here by blast
  have ex: "ErrorOcc (scenario_name r) e \<in> set (occurrences cat (snd (analyze_errors rs)))"
    if "map_of error_patterns_table cat = Some pat" "search pat e" for cat pat
    using cls[OF map_of_SomeD[OF that(1)]] that(2) by simp
  have t1: "ErrorOcc (scenario_name r) e \<in>
              set (occurrences ''timeout'' (snd (analyze_errors rs)))"
    if "e = ''Timeout exceeded'' \<or> e = ''Timeout waiting for element''"
  proof -
    from that timeout_examples(1,2)
    have "search (the (map_of error_patterns_table ''timeout'')) e" by blast
    then show ?thesis by (rule ex[OF pattern_lookups(1)])
  qed
  have t2: "ErrorOcc (scenario_name r) e \<in>
              set (occurrences ''authentication'' (snd (analyze_errors rs)))"
    if "e = ''401 Unauthorized''"
  proof -
    from that timeout_examples(3)
    have "search (the (map_of error_patterns_table ''authentication'')) e" by blast
    then show ?thesis by (rule ex[OF pattern_lookups(2)])
  qed
  have t3: "ErrorOcc (scenario_name r) e \<in>
              set (occurrences ''connection'' (snd (analyze_errors rs)))"
    and t4: "ErrorOcc (scenario_name r) e \<in>
              set (occurrences ''database'' (snd (analyze_errors rs)))"
    if "e = ''Database connection failed''"
  proof -
    from that database_examples
    have c: "search (the (map_of error_patterns_table ''connection'')) e"
      and d: "search (the (map_of error_patterns_table ''database'')) e" by blast+
    from c show "ErrorOcc (scenario_name r) e \<in>
              set (occurrences ''connection'' (snd (analyze_errors rs)))"
      by (rule ex[OF pattern_lookups(3)])
    from d show "ErrorOcc (scenario_name r) e \<in>
              set (occurrences ''database'' (snd (analyze_errors rs)))"
      by (rule ex[OF pattern_lookups(4)])
  qed
  have all: "\<forall>(cat, pat) \<in> set error_patterns_table.
            (ErrorOcc (scenario_name r) e \<in> set (occurrences cat (snd (analyze_errors rs)))
               \<longleftrightarrow> search pat e) \<and>
            (\<forall>e'. lower e' = lower e \<longrightarrow> search pat e' = search pat e)"
  proof (rule ballI)
    fix x assume x: "x \<in> set error_patterns_table"
    obtain cat pat where xe: "x = (cat, pat)" by (cases x)
    from x cls[of cat pat] search_same_lower[of _ e pat]
    show "case x of (cat, pat) \<Rightarrow>
            (ErrorOcc (scenario_name r) e \<in> set (occurrences cat (snd (analyze_errors rs)))
               \<longleftrightarrow> search pat e) \<and>
            (\<forall>e'. lower e' = lower e \<longrightarrow> search pat e' = search pat e)"
      unfolding xe prod.case by blast
  qed
  show ?thesis
  proof (intro conjI impI)
    show "\<forall>(cat, pat) \<in> set error_patterns_table.
            (ErrorOcc (scenario_name r) e \<in> set (occurrences cat (snd (analyze_errors rs)))
               \<longleftrightarrow> search pat e) \<and>
            (\<forall>e'. lower e' = lower e \<longrightarrow> search pat e' = search pat e)"
      by (rule all)
  qed (rule t1 t2 t3 t4, assumption)+
qed


theorem C9_error_classification_witness:
  "wres ''login'' False 1 (Some ''Timeout exceeded'') \<in>
     set [wres ''login'' False 1 (Some ''Timeout exceeded'')] \<and>
   \<not> success (wres ''login'' False 1 (Some ''Timeout exceeded'')) \<and>
   error (wres ''login'' False 1 (Some ''Timeout exceeded'')) = Some ''Timeout exceeded'' \<and>
   ''Timeout exceeded'' \<noteq> [] \<and>
   ErrorOcc ''login'' ''Timeout exceeded'' \<in>
     set (occurrences ''timeout''
            (snd (analyze_errors [wres ''login'' False 1 (Some ''Timeout exceeded'')])))"
proof -
  have a: "wres ''login'' False 1 (Some ''Timeout exceeded'') \<in>
     set [wres ''login'' False 1 (Some ''Timeout exceeded'')]" by simp
  have b: "\<not> success (wres ''login'' False 1 (Some ''Timeout exceeded''))"
    by (simp add: wres_def)
  have c: "error (wres ''login'' False 1 (Some ''Timeout exceeded'')) = Some ''Timeout exceeded''"
    by (simp add: wres_def)
  have d: "''Timeout exceeded'' \<noteq> []" by simp
  have n: "scenario_name (wres ''login'' False 1 (Some ''Timeout exceeded'')) = ''login''"
    by (simp add: wres_def)
  from C9_error_classification[OF a b c d] a b c show ?thesis
    unfolding n by simp
qed

section \<open>The aggregator: proofs\<close>


lemma worker_results_added: "worker_results (foldl add_result a rs) = worker_results a @ rs"
  by (induction rs arbitrary: a) (simp_all add: add_result_def)

lemma aggregated_results_added: "aggregated_results (foldl add_result a rs) = aggregated_results a"
  by (induction rs arbitrary: a) (simp_all add: add_result_def)

lemma stats_step_counts:
  "successful_scenarios (stats_step res r) = successful_scenarios res + (if success r then 1 else 0)"
  "failed_scenarios (stats_step res r) = failed_scenarios res + (if success r then 0 else 1)"
  "total_scenarios (stats_step res r) = total_scenarios res"
  "success_rate (stats_step res r) = success_rate res"
  by (simp_all add: stats_step_def Let_def)

lemma stats_fold_counts:
  "successful_scenarios (foldl stats_step res rs) =
     successful_scenarios res + length (filter success rs)"
  "failed_scenarios (foldl stats_step res rs) =
     failed_scenarios res + length (filter (\<lambda>r. \<not> success r) rs)"
  "total_scenarios (foldl stats_step res rs) = total_scenarios res"
  "success_rate (foldl stats_step res rs) = success_rate res"
proof (induction rs arbitrary: res)
  case Nil
  {
    case 1 show ?case by simp
  next
    case 2 show ?case by simp
  next
    case 3 show ?case by simp
  next
    case 4 show ?case by simp
  }
next
  case (Cons r rs)
  {
    case 1 show ?case by (simp add: Cons.IH(1) stats_step_counts)
  next
    case 2 show ?case by (simp add: Cons.IH(2) stats_step_counts)
  next
    case 3 show ?case by (simp add: Cons.IH(3) stats_step_counts)
  next
    case 4 show ?case by (simp add: Cons.IH(4) stats_step_counts)
  }
qed

lemma basic_stats_counts:
  "total_scenarios (aggregated_results (calculate_basic_stats a)) = length (worker_results a)"
  "successful_scenarios (aggregated_results (calculate_basic_stats a)) =
     successful_scenarios (aggregated_results a) + length (filter success (worker_results a))"
  "failed_scenarios (aggregated_results (calculate_basic_stats a)) =
     failed_scenarios (aggregated_results a) +
       length (filter (\<lambda>r. \<not> success r) (worker_results a))"
  "success_rate (aggregated_results (calculate_basic_stats a)) =
     (if worker_results a = [] then success_rate (aggregated_results a)
      else of_nat (successful_scenarios (aggregated_results a) +
                   length (filter success (worker_results a))) /
           of_nat (length (worker_results a)))"
  by (simp_all add: calculate_basic_stats_def Let_def stats_fold_counts)

text \<open>The later stages leave the basic statistics alone.\<close>

lemma aggregate_keeps_stats:
  assumes "worker_results a \<noteq> []"
  shows "total_scenarios (aggregated_results (snd (aggregate a))) =
           total_scenarios (aggregated_results (calculate_basic_stats a))"
    and "successful_scenarios (aggregated_results (snd (aggregate a))) =
           successful_scenarios (aggregated_results (calculate_basic_stats a))"
    and "failed_scenarios (aggregated_results (snd (aggregate a))) =
           failed_scenarios (aggregated_results (calculate_basic_stats a))"
    and "success_rate (aggregated_results (snd (aggregate a))) =
           success_rate (aggregated_results (calculate_basic_stats a))"
  using assms
  by (simp_all add: aggregate_def Let_def analyze_errors_stage_def
      split: prod.splits sum.splits)

lemma aggregate_returns:
  "fst (aggregate a) = Inr res \<Longrightarrow> res = aggregated_results (snd (aggregate a))"
  by (auto simp: aggregate_def Let_def split: if_splits prod.splits sum.splits)


lemma count_failed:
  "length (filter (\<lambda>r. \<not> success r) rs) = length rs - length (filter success rs)"
  using sum_length_filter_compl[of success rs] by simp


section \<open>The aggregator: claims\<close>

text \<open>
  Claim C8. A new aggregator that has received N worker results, K of them successful,
  holds after one \<open>aggregate()\<close> call \<open>total_scenarios = N\<close>,
  \<open>successful_scenarios = K\<close>, \<open>failed_scenarios = N - K\<close> and \<open>success_rate = K / N\<close>
  (the rate as an exact quotient), and \<open>success_rate = 0\<close> when \<open>N = 0\<close>; whenever the
  call returns, it returns that object.
\<close>

theorem C8_success_rate:
  "total_scenarios (aggregate_once rs) = length rs \<and>
   successful_scenarios (aggregate_once rs) = length (filter success rs) \<and>
   failed_scenarios (aggregate_once rs) = length rs - length (filter success rs) \<and>
   success_rate (aggregate_once rs) =
     (if rs = [] then 0 else of_nat (length (filter success rs)) / of_nat (length rs)) \<and>
   (\<forall>res. fst (aggregate (foldl add_result ResultAggregator_init rs)) = Inr res \<longrightarrow>
      res = aggregate_once rs)"
proof (cases "rs = []")
  case True
  then show ?thesis
    by (simp add: aggregate_once_def aggregate_def ResultAggregator_init_def
        AggregatedResults_init_def)
next
  case False
  define a where "a = foldl add_result ResultAggregator_init rs"
  have w: "worker_results a = rs"
    by (simp add: a_def worker_results_added ResultAggregator_init_def)
  have i: "aggregated_results a = AggregatedResults_init"
    by (simp add: a_def aggregated_results_added ResultAggregator_init_def)
  from False w have ne: "worker_results a \<noteq> []" by simp
  have z: "successful_scenarios AggregatedResults_init = 0"
    "failed_scenarios AggregatedResults_init = 0"
    by (simp_all add: AggregatedResults_init_def)
  have o: "aggregate_once rs = aggregated_results (snd (aggregate a))"
    by (simp add: aggregate_once_def a_def)
  have "total_scenarios (aggregate_once rs) = length rs"
    unfolding o aggregate_keeps_stats[OF ne] basic_stats_counts w ..
  moreover have "successful_scenarios (aggregate_once rs) = length (filter success rs)"
    unfolding o aggregate_keeps_stats[OF ne] basic_stats_counts w i z by simp
  moreover have "failed_scenarios (aggregate_once rs) = length rs - length (filter success rs)"
    unfolding o aggregate_keeps_stats[OF ne] basic_stats_counts w i z count_failed by simp
  moreover have "success_rate (aggregate_once rs) =
      of_nat (length (filter success rs)) / of_nat (length rs)"
    unfolding o aggregate_keeps_stats[OF ne] basic_stats_counts w i z using False by simp
  moreover have "\<forall>res. fst (aggregate a) = Inr res \<longrightarrow> res = aggregate_once rs"
    unfolding o using aggregate_returns by blast
  ultimately show ?thesis using False unfolding a_def by simp
qed

theorem C8_success_rate_witness:
  "success_rate (aggregate_once
      [wres ''A'' True 2 None, wres ''B'' False 1 (Some ''Database connection failed''),
       wres ''C'' True 3 None]) = 2 / 3 \<and>
   success_rate (aggregate_once []) = 0"
  using C8_success_rate[of "[wres ''A'' True 2 None,
       wres ''B'' False 1 (Some ''Database connection failed''), wres ''C'' True 3 None]"]
    C8_success_rate[of "[]"]
  by (simp add: wres_def)


lemma twice_eval:
  "successful_scenarios (aggregate_once [wres ''login'' True 1 None]) = 1"
  "successful_scenarios (aggregate_twice [wres ''login'' True 1 None]) = 2"
  "success_rate (aggregate_once [wres ''login'' True 1 None]) = 1"
  "success_rate (aggregate_twice [wres ''login'' True 1 None]) = 2"
  "total_duration (aggregate_once [wres ''login'' True 1 None]) = 1"
  "total_duration (aggregate_twice [wres ''login'' True 1 None]) = 2"
  "total_scenarios (aggregate_once [wres ''login'' True 1 None]) = 1"
  "total_scenarios (aggregate_twice [wres ''login'' True 1 None]) = 1"
  by code_simp+


text \<open>
  Claim C1 fails on the code. \<open>_calculate_basic_stats\<close> resets \<open>total_scenarios\<close> but adds
  to the counters and to the duration sum that the previous call left in
  \<open>self.aggregated_results\<close>: with one successful result of one second, the first call
  gives 1 success, rate 1 and total duration 1; the second call, with nothing added,
  gives 2 successes out of 1 scenario, rate 2 and total duration 2.
\<close>

theorem C1_second_call_accumulates:
  "total_scenarios (aggregate_once [wres ''login'' True 1 None]) = 1 \<and>
   total_scenarios (aggregate_twice [wres ''login'' True 1 None]) = 1 \<and>
   successful_scenarios (aggregate_once [wres ''login'' True 1 None]) = 1 \<and>
   successful_scenarios (aggregate_twice [wres ''login'' True 1 None]) = 2 \<and>
   success_rate (aggregate_once [wres ''login'' True 1 None]) = 1 \<and>
   success_rate (aggregate_twice [wres ''login'' True 1 None]) = 2 \<and>
   total_duration (aggregate_once [wres ''login'' True 1 None]) = 1 \<and>
   total_duration (aggregate_twice [wres ''login'' True 1 None]) = 2 \<and>
   aggregate_twice [wres ''login'' True 1 None] \<noteq> aggregate_once [wres ''login'' True 1 None]"
proof -
  have "successful_scenarios (aggregate_twice [wres ''login'' True 1 None]) \<noteq>
        successful_scenarios (aggregate_once [wres ''login'' True 1 None])"
    unfolding twice_eval by simp
  then have "aggregate_twice [wres ''login'' True 1 None] \<noteq>
             aggregate_once [wres ''login'' True 1 None]"
    by auto
  with twice_eval show ?thesis by simp
qed

section \<open>Findings analysis: proofs\<close>

lemma boundary_eval:
  "spec_similar ''a b c d e f g h i j'' ''a b c d e f g x y z''"
  "\<not> are_similar ''a b c d e f g h i j'' ''a b c d e f g x y z''"
  "group_similar_findings
     [fentry ''s1'' ''a b c d e f g h i j'', fentry ''s2'' ''a b c d e f g x y z''] = Inr []"
  by code_simp+

lemma greedy_eval:
  "\<not> spec_similar ''a'' ''b''"
  "map_sum id (map cl_count)
     (group_similar_findings [fentry ''s1'' ''a b'', fentry ''s2'' ''a'', fentry ''s3'' ''b'']) =
   Inr [3]"
  by code_simp+

lemma are_similar_strictly: "are_similar text1 text2 = strictly_similar text1 text2"
  by (auto simp: are_similar_def strictly_similar_def Let_def)

lemma same_lower_similar: "lower d1 = lower d2 \<Longrightarrow> strictly_similar d1 d2"
  by (simp add: strictly_similar_def Let_def)

text \<open>The two loops of \<open>_group_similar_findings\<close>, with their set of seen indices,
  compute the seed rule.\<close>


lemma scan_others_spec:
  assumes "distinct (map fst rest)" and "\<forall>x \<in> set rest. fe_description (snd x) \<noteq> None"
  shows "scan_others (Some d) rest S similar =
           Inr (similar @ map snd (filter (\<lambda>x. fst x \<notin> S \<and>
                                are_similar d (the (fe_description (snd x)))) rest),
                S \<union> fst ` set (filter (\<lambda>x. fst x \<notin> S \<and>
                                are_similar d (the (fe_description (snd x)))) rest))"
  using assms
proof (induction rest arbitrary: S similar)
  case Nil
  then show ?case by simp
next
  case (Cons x rest)
  obtain j other where x: "x = (j, other)" by (cases x)
  from Cons.prems x obtain d' where d': "fe_description other = Some d'" by auto
  from Cons.prems x have nj: "j \<notin> fst ` set rest" and dr: "distinct (map fst rest)"
    and ar: "\<forall>x \<in> set rest. fe_description (snd x) \<noteq> None"
    by auto
  note IH = Cons.IH[OF dr ar]
  have cong: "filter (\<lambda>x. fst x \<notin> insert j S \<and> are_similar d (the (fe_description (snd x)))) rest =
              filter (\<lambda>x. fst x \<notin> S \<and> are_similar d (the (fe_description (snd x)))) rest"
    using nj by (intro filter_cong) auto
  have cong': "filter (\<lambda>x. fst x \<noteq> j \<and> fst x \<notin> S \<and>
                    are_similar d (the (fe_description (snd x)))) rest =
              filter (\<lambda>x. fst x \<notin> S \<and> are_similar d (the (fe_description (snd x)))) rest"
    using nj by (intro filter_cong) auto
  show ?case
  proof (cases "j \<in> S")
    case True
    then show ?thesis unfolding x by (simp add: IH)
  next
    case False
    show ?thesis
    proof (cases "are_similar d d'")
      case True
      with False show ?thesis unfolding x
        by (simp add: IH are_similar_call_def d' cong')
    next
      case no: False
      with False show ?thesis unfolding x
        by (simp add: IH are_similar_call_def d')
    qed
  qed
qed


lemma similar_entries_eq:
  "fe_description f = Some d \<Longrightarrow> fe_description g \<noteq> None \<Longrightarrow>
     similar_entries f g = are_similar d (the (fe_description g))"
  by (auto simp: similar_entries_def are_similar_strictly)

lemma group_loop_spec:
  assumes "distinct (map fst xs)" and "\<forall>x \<in> set xs. fe_description (snd x) \<noteq> None"
  shows "group_loop xs S grouped =
           Inr (grouped @ seed_clusters (map snd (filter (\<lambda>x. fst x \<notin> S) xs)))"
  using assms
proof (induction xs arbitrary: S grouped)
  case Nil
  then show ?case by simp
next
  case (Cons x rest)
  obtain i f where x: "x = (i, f)" by (cases x)
  from Cons.prems x obtain d where d: "fe_description f = Some d" by auto
  from Cons.prems x have ni: "i \<notin> fst ` set rest" and dr: "distinct (map fst rest)"
    and ar: "\<forall>x \<in> set rest. fe_description (snd x) \<noteq> None"
    by auto
  note IH = Cons.IH[OF dr ar]
  show ?case
  proof (cases "i \<in> S")
    case True
    then show ?thesis unfolding x by (simp add: IH)
  next
    case False
    let ?P = "\<lambda>x. fst x \<notin> S \<and> are_similar d (the (fe_description (snd x)))"
    let ?J = "map snd (filter ?P rest)"
    let ?S' = "S \<union> fst ` set (filter ?P rest)"
    let ?L = "map snd (filter (\<lambda>x. fst x \<notin> S) rest)"
    have sc: "scan_others (fe_description f) rest S [f] = Inr ([f] @ ?J, ?S')"
      unfolding d by (rule scan_others_spec[OF dr ar])
    have mem: "fst x \<in> fst ` set (filter ?P rest) \<longleftrightarrow> ?P x" if "x \<in> set rest" for x
    proof
      assume "fst x \<in> fst ` set (filter ?P rest)"
      then obtain y where y: "y \<in> set rest" "?P y" "fst y = fst x" by auto
      from dr y(1) that y(3) have "y = x"
        by (metis distinct_map inj_on_def)
      with y(2) show "?P x" by simp
    next
      assume "?P x"
      with that show "fst x \<in> fst ` set (filter ?P rest)" by auto
    qed
    have joined: "filter (similar_entries f) ?L = ?J"
    proof -
      have "filter (similar_entries f) ?L =
            map snd (filter (\<lambda>x. fst x \<notin> S \<and> similar_entries f (snd x)) rest)"
        by (simp add: filter_map comp_def conj_commute)
      also have "\<dots> = ?J"
        using ar by (intro arg_cong[where f = "map snd"] filter_cong)
          (auto simp: similar_entries_eq[OF d])
      finally show ?thesis .
    qed
    have left: "filter (\<lambda>g. \<not> similar_entries f g) ?L = map snd (filter (\<lambda>x. fst x \<notin> ?S') rest)"
    proof -
      have "filter (\<lambda>g. \<not> similar_entries f g) ?L =
            map snd (filter (\<lambda>x. fst x \<notin> S \<and> \<not> similar_entries f (snd x)) rest)"
        by (simp add: filter_map comp_def conj_commute)
      also have "\<dots> = map snd (filter (\<lambda>x. fst x \<notin> ?S') rest)"
      proof (intro arg_cong[where f = "map snd"] filter_cong refl)
        fix x assume xr: "x \<in> set rest"
        with ar have "fe_description (snd x) \<noteq> None" by blast
        from similar_entries_eq[OF d this] mem[OF xr]
        show "(fst x \<notin> S \<and> \<not> similar_entries f (snd x)) = (fst x \<notin> ?S')"
          by auto
      qed
      finally show ?thesis .
    qed
    have "group_loop (x # rest) S grouped =
            group_loop rest ?S'
              (if ?J \<noteq> [] then grouped @ [make_cluster (fe_description f) (f # ?J)] else grouped)"
      unfolding x using False by (simp add: sc)
    also have "\<dots> = Inr ((if ?J \<noteq> [] then grouped @ [make_cluster (fe_description f) (f # ?J)]
                          else grouped) @
                         seed_clusters (map snd (filter (\<lambda>x. fst x \<notin> ?S') rest)))"
      by (rule IH)
    also have "\<dots> = Inr (grouped @ seed_clusters (f # ?L))"
      unfolding seed_clusters.simps Let_def joined left by simp
    also have "f # ?L = map snd (filter (\<lambda>x. fst x \<notin> S) (x # rest))"
      unfolding x using False by simp
    finally show ?thesis .
  qed
qed

lemma group_similar_findings_spec:
  assumes "\<forall>f \<in> set fs. fe_description f \<noteq> None"
  shows "group_similar_findings fs = Inr (seed_clusters fs)"
proof -
  have d: "distinct (map fst (zip [0 ..< length fs] fs))" by simp
  have a: "\<forall>x \<in> set (zip [0 ..< length fs] fs). fe_description (snd x) \<noteq> None"
    using assms by (auto dest: set_zip_rightD)
  have m: "map snd (filter (\<lambda>x. fst x \<notin> {}) (zip [0 ..< length fs] fs)) = fs"
    by simp
  show ?thesis
    unfolding group_similar_findings_def group_loop_spec[OF d a] m by simp
qed


lemma seed_clusters_short: "length fs \<le> 1 \<Longrightarrow> seed_clusters fs = []"
  by (cases fs) (simp_all add: Let_def)

lemma entries_in_add:
  "entries_in (add_finding t e bt) t' = entries_in bt t' @ (if t' = t then [e] else [])"
  by (auto simp: entries_in_def add_finding_def update_conv' map_add_def split: option.splits)

lemma distinct_add_finding:
  "distinct (map fst bt) \<Longrightarrow> distinct (map fst (add_finding t e bt))"
  by (auto simp: add_finding_def distinct_update split: option.splits dest: map_of_SomeD
      simp: map_of_eq_None_iff)

lemma collect_findings_spec:
  "entries_in (fst (collect_findings sn fs (bt, roots))) t =
     entries_in bt t @ map (entry_of sn) (filter (\<lambda>f. finding_type f = t) fs)"
  "distinct (map fst bt) \<Longrightarrow> distinct (map fst (fst (collect_findings sn fs (bt, roots))))"
proof (induction fs arbitrary: bt roots)
  case Nil
  { case 1 show ?case by simp
  next case 2 then show ?case by simp }
next
  case (Cons f fs)
  { case 1
    show ?case
      by (simp add: Let_def Cons.IH(1) entries_in_add finding_type_def entry_of_def)
  next
    case 2
    then show ?case
      by (simp add: Let_def Cons.IH(2) distinct_add_finding) }
qed

lemma collect_all_findings_entries:
  "entries_in (fst (collect_all_findings rs (bt, roots))) t = entries_in bt t @ entries_of_type t rs"
proof (induction rs arbitrary: bt roots)
  case Nil
  show ?case by (simp add: entries_of_type_def)
next
  case (Cons r rs)
  obtain bt' roots' where c: "collect_findings (scenario_name r) (findings r) (bt, roots) = (bt', roots')"
    by (cases "collect_findings (scenario_name r) (findings r) (bt, roots)")
  have e: "entries_in bt' t = entries_in bt t @
             map (entry_of (scenario_name r)) (filter (\<lambda>f. finding_type f = t) (findings r))"
    using collect_findings_spec(1)[of "scenario_name r" "findings r" bt roots t] c by simp
  show ?case
    by (simp add: c Cons.IH e entries_of_type_def)
qed

lemma collect_all_findings_distinct:
  "distinct (map fst bt) \<Longrightarrow> distinct (map fst (fst (collect_all_findings rs (bt, roots))))"
proof (induction rs arbitrary: bt roots)
  case Nil
  then show ?case by simp
next
  case (Cons r rs)
  obtain bt' roots' where c: "collect_findings (scenario_name r) (findings r) (bt, roots) = (bt', roots')"
    by (cases "collect_findings (scenario_name r) (findings r) (bt, roots)")
  have d: "distinct (map fst bt')"
    using collect_findings_spec(2)[OF Cons.prems, of "scenario_name r" "findings r" roots] c
    by simp
  from Cons.IH[OF d] show ?case by (simp add: c)
qed

lemma common_of_spec:
  assumes "distinct (map fst bt)"
    and "\<forall>x \<in> set bt. \<forall>f \<in> set (snd x). fe_description f \<noteq> None"
  shows "\<exists>common'. common_of bt common = Inr common' \<and>
           (\<forall>t. map_of common' t =
              (if seed_clusters (entries_in bt t) = [] then map_of common t
               else Some (seed_clusters (entries_in bt t))))"
  using assms
proof (induction bt arbitrary: common)
  case Nil
  then show ?case by (simp add: entries_in_def)
next
  case (Cons x rest)
  obtain t0 fs where x: "x = (t0, fs)" by (cases x)
  from Cons.prems x have n0: "map_of rest t0 = None" and dr: "distinct (map fst rest)"
    and ar: "\<forall>x \<in> set rest. \<forall>f \<in> set (snd x). fe_description f \<noteq> None"
    and af: "\<forall>f \<in> set fs. fe_description f \<noteq> None"
    by (auto simp: map_of_eq_None_iff)
  let ?c = "if length fs > 1 \<and> seed_clusters fs \<noteq> []
            then AList.update t0 (seed_clusters fs) common else common"
  have step: "common_of (x # rest) common = common_of rest ?c"
    unfolding x by (simp add: group_similar_findings_spec[OF af])
  from Cons.IH[OF dr ar, of ?c] obtain common' where
    c': "common_of rest ?c = Inr common'"
    and m: "\<And>t. map_of common' t =
              (if seed_clusters (entries_in rest t) = [] then map_of ?c t
               else Some (seed_clusters (entries_in rest t)))"
    by blast
  have e0: "entries_in rest t0 = []" using n0 by (simp add: entries_in_def)
  have "map_of common' t =
          (if seed_clusters (entries_in (x # rest) t) = [] then map_of common t
           else Some (seed_clusters (entries_in (x # rest) t)))" for t
  proof (cases "t = t0")
    case True
    have ex: "entries_in (x # rest) t0 = fs" unfolding x by (simp add: entries_in_def)
    have "map_of common' t0 = map_of ?c t0"
      unfolding m[of t0] e0 by simp
    also have "\<dots> = (if seed_clusters fs = [] then map_of common t0
                        else Some (seed_clusters fs))"
      using seed_clusters_short[of fs] by (auto simp: update_conv')
    finally show ?thesis unfolding True ex .
  next
    case False
    then have "entries_in (x # rest) t = entries_in rest t"
      unfolding x by (simp add: entries_in_def)
    then show ?thesis
      unfolding m[of t] using False by (auto simp: update_conv')
  qed
  with c' step show ?case by auto
qed

lemma analyze_findings_spec:
  assumes "\<forall>r \<in> set rs. \<forall>f \<in> set (findings r). description f \<noteq> None"
  shows "\<exists>common roots. analyze_findings rs = Inr (common, roots) \<and>
           (\<forall>t. map_of common t =
              (if seed_clusters (entries_of_type t rs) = [] then None
               else Some (seed_clusters (entries_of_type t rs))))"
proof -
  obtain bt roots where c: "collect_all_findings rs ([], []) = (bt, roots)"
    by (cases "collect_all_findings rs ([], [])")
  have e: "entries_in bt t = entries_of_type t rs" for t
    using collect_all_findings_entries[of rs "[]" "[]" t] c by (simp add: entries_in_def)
  have d: "distinct (map fst bt)"
    using collect_all_findings_distinct[of "[]" rs "[]"] c by simp
  have a: "\<forall>x \<in> set bt. \<forall>f \<in> set (snd x). fe_description f \<noteq> None"
  proof (intro ballI)
    fix x f assume x: "x \<in> set bt" and f: "f \<in> set (snd x)"
    obtain t fs where xe: "x = (t, fs)" by (cases x)
    from d x xe have "map_of bt t = Some fs" by simp
    then have "entries_in bt t = fs" by (simp add: entries_in_def)
    with f xe e[of t] have "f \<in> set (entries_of_type t rs)" by simp
    then obtain r g where "r \<in> set rs" "g \<in> set (findings r)" "f = entry_of (scenario_name r) g"
      by (auto simp: entries_of_type_def)
    with assms show "fe_description f \<noteq> None" by (auto simp: entry_of_def)
  qed
  from common_of_spec[OF d a, of "[]"] obtain common where
    co: "common_of bt [] = Inr common"
    and m: "\<And>t. map_of common t =
              (if seed_clusters (entries_in bt t) = [] then map_of [] t
               else Some (seed_clusters (entries_in bt t)))"
    by blast
  have "analyze_findings rs = Inr (common, roots)"
    by (simp add: analyze_findings_def c co)
  moreover have "map_of common t =
              (if seed_clusters (entries_of_type t rs) = [] then None
               else Some (seed_clusters (entries_of_type t rs)))" for t
    using m[of t] unfolding e by simp
  ultimately show ?thesis by blast
qed

lemma seed_clusters_two:
  assumes "fe_description e1 = Some d1" "fe_description e2 = Some d2"
  shows "seed_clusters [e1, e2] =
           (if strictly_similar d1 d2
            then [\<lparr>cl_description = Some d1, cl_count = 2,
                   cl_scenarios = [fe_scenario e1, fe_scenario e2],
                   cl_evidence = map the (filter truthy [fe_evidence e1, fe_evidence e2])\<rparr>]
            else [])"
  using assms by (simp add: Let_def similar_entries_def make_cluster_def)



section \<open>Findings analysis: claims\<close>

text \<open>
  Claim C7 as stated fails, in two ways. The code asks for an overlap ratio above 0.7,
  not of at least 0.7: two descriptions of ten words each that share seven are similar
  by the stated rule and are not clustered. And clusters are formed around the first
  finding that is not yet in one, so two findings land in the same cluster when each
  is similar to that first one, although they are not similar to each other.
\<close>

theorem C7_counterexample:
  "spec_similar ''a b c d e f g h i j'' ''a b c d e f g x y z'' \<and>
   \<not> are_similar ''a b c d e f g h i j'' ''a b c d e f g x y z'' \<and>
   group_similar_findings
     [fentry ''s1'' ''a b c d e f g h i j'', fentry ''s2'' ''a b c d e f g x y z''] = Inr [] \<and>
   \<not> spec_similar ''a'' ''b'' \<and>
   map_sum id (map cl_count)
     (group_similar_findings [fentry ''s1'' ''a b'', fentry ''s2'' ''a'', fentry ''s3'' ''b'']) =
   Inr [3]"
  using boundary_eval greedy_eval by simp

text \<open>
  Claim C7, amended. Two descriptions are judged similar exactly when, after
  lowercasing and trimming, they are equal, one contains the other, or their
  token-overlap ratio \<open>|intersection| / min(|words1|, |words2|)\<close> is greater than 70
  percent; two descriptions that differ only in letter case are always similar. For
  worker results whose findings all have a description, the analysis returns, and the
  findings of each type are clustered in their order of arrival by the seed rule: the
  first finding not yet in a cluster seeds one, which takes every later finding not yet
  in a cluster whose description is similar to the seed's; a seed that takes none is
  not reported, and a type without a reported cluster has no entry. So when a type has
  exactly two findings, from whichever worker results, they form one cluster of count 2
  exactly when their descriptions are similar, and the type has no entry otherwise.
\<close>

theorem C7_similarity_rule:
  assumes "\<forall>r \<in> set rs. \<forall>f \<in> set (findings r). description f \<noteq> None"
  shows "(\<forall>a b. are_similar a b = strictly_similar a b) \<and>
         (\<forall>a b. lower a = lower b \<longrightarrow> strictly_similar a b) \<and>
         (\<exists>common roots. analyze_findings rs = Inr (common, roots) \<and>
            (\<forall>t. map_of common t =
               (if seed_clusters (entries_of_type t rs) = [] then None
                else Some (seed_clusters (entries_of_type t rs)))) \<and>
            (\<forall>t e1 e2 d1 d2.
               entries_of_type t rs = [e1, e2] \<and>
               fe_description e1 = Some d1 \<and> fe_description e2 = Some d2 \<longrightarrow>
               map_of common t =
                 (if strictly_similar d1 d2
                  then Some [\<lparr>cl_description = Some d1, cl_count = 2,
                              cl_scenarios = [fe_scenario e1, fe_scenario e2],
                              cl_evidence =
                                map the (filter truthy [fe_evidence e1, fe_evidence e2])\<rparr>]
                  else None)))"
proof -
  from analyze_findings_spec[OF assms] obtain common roots where
    an: "analyze_findings rs = Inr (common, roots)"
    and m: "\<And>t. map_of common t =
               (if seed_clusters (entries_of_type t rs) = [] then None
                else Some (seed_clusters (entries_of_type t rs)))"
    by blast
  have two: "map_of common t =
                 (if strictly_similar d1 d2
                  then Some [\<lparr>cl_description = Some d1, cl_count = 2,
                              cl_scenarios = [fe_scenario e1, fe_scenario e2],
                              cl_evidence =
                                map the (filter truthy [fe_evidence e1, fe_evidence e2])\<rparr>]
                  else None)"
    if "entries_of_type t rs = [e1, e2] \<and>
        fe_description e1 = Some d1 \<and> fe_description e2 = Some d2" for t e1 e2 d1 d2
  proof -
    from that have e: "entries_of_type t rs = [e1, e2]"
      and d: "fe_description e1 = Some d1" "fe_description e2 = Some d2" by blast+
    show ?thesis
      unfolding m[of t] e seed_clusters_two[OF d] by simp
  qed
  from an m two have "\<exists>common roots. analyze_findings rs = Inr (common, roots) \<and>
            (\<forall>t. map_of common t =
               (if seed_clusters (entries_of_type t rs) = [] then None
                else Some (seed_clusters (entries_of_type t rs)))) \<and>
            (\<forall>t e1 e2 d1 d2.
               entries_of_type t rs = [e1, e2] \<and>
               fe_description e1 = Some d1 \<and> fe_description e2 = Some d2 \<longrightarrow>
               map_of common t =
                 (if strictly_similar d1 d2
                  then Some [\<lparr>cl_description = Some d1, cl_count = 2,
                              cl_scenarios = [fe_scenario e1, fe_scenario e2],
                              cl_evidence =
                                map the (filter truthy [fe_evidence e1, fe_evidence e2])\<rparr>]
                  else None))"
    by blast
  with are_similar_strictly same_lower_similar show ?thesis by blast
qed

theorem C7_similarity_rule_witness:
  "description (hd (findings (one_finding ''s1'' ''bug'' ''API returns 400 for bad department''))) =
     Some ''API returns 400 for bad department'' \<and>
   description (hd (findings (one_finding ''s2'' ''bug'' ''api returns 400 for bad department''))) =
     Some ''api returns 400 for bad department'' \<and>
   lower ''API returns 400 for bad department'' = lower ''api returns 400 for bad department'' \<and>
   map_sum id (\<lambda>p. map_of (fst p) ''bug'')
     (analyze_findings [one_finding ''s1'' ''bug'' ''API returns 400 for bad department'',
                        one_finding ''s2'' ''bug'' ''api returns 400 for bad department'']) =
   Inr (Some [\<lparr>cl_description = Some ''API returns 400 for bad department'',
                cl_count = 2, cl_scenarios = [''s1'', ''s2''], cl_evidence = []\<rparr>])"
proof -
  let ?A = "''API returns 400 for bad department''"
  let ?B = "''api returns 400 for bad department''"
  let ?rs = "[one_finding ''s1'' ''bug'' ?A, one_finding ''s2'' ''bug'' ?B]"
  let ?e1 = "\<lparr>fe_scenario = ''s1'', fe_description = Some ?A, fe_evidence = None,
              fe_fix_suggestion = None\<rparr>"
  let ?e2 = "\<lparr>fe_scenario = ''s2'', fe_description = Some ?B, fe_evidence = None,
              fe_fix_suggestion = None\<rparr>"
  have h: "\<forall>r \<in> set ?rs. \<forall>f \<in> set (findings r). description f \<noteq> None"
    by (simp add: one_finding_def)
  have l: "lower ?A = lower ?B"
    by code_simp
  have e: "entries_of_type ''bug'' ?rs = [?e1, ?e2]"
    by (simp add: entries_of_type_def one_finding_def finding_type_def entry_of_def)
  from C7_similarity_rule[OF h] obtain common roots where
    an: "analyze_findings ?rs = Inr (common, roots)"
    and low: "\<forall>a b. lower a = lower b \<longrightarrow> strictly_similar a b"
    and two: "\<forall>t e1 e2 d1 d2.
               entries_of_type t ?rs = [e1, e2] \<and>
               fe_description e1 = Some d1 \<and> fe_description e2 = Some d2 \<longrightarrow>
               map_of common t =
                 (if strictly_similar d1 d2
                  then Some [\<lparr>cl_description = Some d1, cl_count = 2,
                              cl_scenarios = [fe_scenario e1, fe_scenario e2],
                              cl_evidence =
                                map the (filter truthy [fe_evidence e1, fe_evidence e2])\<rparr>]
                  else None)"
    by blast
  from low l have s: "strictly_similar ?A ?B" by blast
  from two[rule_format, of "''bug''" ?e1 ?e2 ?A ?B] e s
  have "map_of common ''bug'' =
          Some [\<lparr>cl_description = Some ?A, cl_count = 2, cl_scenarios = [''s1'', ''s2''],
                 cl_evidence = []\<rparr>]"
    by simp
  with an l show ?thesis by (simp add: one_finding_def)
qed


end
